theory Spec2Isabelle
  imports Main "HOL-Library.Word"
begin

section \<open>Values of the program\<close>

text \<open>
  The wallet passes keys, addresses, view tags and metadata around as hex strings
  (TypeScript type \<open>Hex\<close>, a string that starts with \<open>0x\<close>) and hands byte arrays
  (\<open>Uint8Array\<close>) to the curve and hash libraries. A hex string is a \<^typ>\<open>string\<close>, a
  byte array a list of 8-bit words, a \<open>bigint\<close> an \<^typ>\<open>int\<close>. Every \<open>throw\<close> of the
  source and of the library calls it makes is a value \<open>Inl e\<close> of the result type.
\<close>

type_synonym byte = "8 word"
type_synonym ByteArray = "byte list"
type_synonym Hex = string

datatype error =
    InvalidMetaAddressLength   \<comment> \<open>\<open>Error('Invalid stealth meta-address length')\<close>\<close>
  | InvalidByteSequence        \<comment> \<open>viem \<open>hexToBytes\<close>: a character that is no hex digit\<close>
  | InvalidPrivateKey          \<comment> \<open>noble: a private key that is not 32 bytes, or not in \<open>[1, n-1]\<close>\<close>
  | PointInvalid               \<comment> \<open>noble: bytes or hex that decode to no curve point\<close>
  | SyntaxError                \<comment> \<open>\<open>BigInt(string)\<close> on a string that is no integer literal\<close>
  | DecryptionFailed           \<comment> \<open>\<open>Error('Decryption failed. Wrong password?')\<close>\<close>

definition CURVE_ORDER :: int where
  "CURVE_ORDER = 0xfffffffffffffffffffffffffffffffebaaedce6af48a03bbfd25e8cd0364141"

subsection \<open>JavaScript string operations\<close>

text \<open>\<open>s.slice(a)\<close> and \<open>s.slice(a, b)\<close> for the constant indices \<open>0 \<le> a \<le> b\<close> of the source.\<close>

definition slice_from :: "nat \<Rightarrow> string \<Rightarrow> string" where
  "slice_from a s = drop a s"

definition slice :: "nat \<Rightarrow> nat \<Rightarrow> string \<Rightarrow> string" where
  "slice a b s = take (b - a) (drop a s)"

text \<open>
  \<open>s.toLowerCase()\<close> on the code units below 256: the letters \<open>A-Z\<close> and the
  Latin-1 capitals \<open>0xC0-0xDE\<close> (\<open>0xD7\<close>, the multiplication sign, apart) move up by 32.
\<close>

definition lowerChar :: "char \<Rightarrow> char" where
  "lowerChar c =
     (let k = (of_char c :: nat) in
      if (65 \<le> k \<and> k \<le> 90) \<or> (192 \<le> k \<and> k \<le> 222 \<and> k \<noteq> 215)
      then char_of (k + 32) else c)"

definition toLowerCase :: "string \<Rightarrow> string" where
  "toLowerCase s = map lowerChar s"

subsection \<open>viem: hex strings and byte arrays\<close>

text \<open>
  \<open>charCodeToBase16\<close> of viem reads one hex digit of either case and is undefined on
  every other character.
\<close>

definition charCodeToBase16 :: "char \<Rightarrow> nat option" where
  "charCodeToBase16 c =
     (let k = (of_char c :: nat) in
      if 48 \<le> k \<and> k \<le> 57 then Some (k - 48)
      else if 65 \<le> k \<and> k \<le> 70 then Some (k - 55)
      else if 97 \<le> k \<and> k \<le> 102 then Some (k - 87)
      else None)"

text \<open>
  \<open>hexToBytes(hex)\<close>: drops the first two characters (the \<open>0x\<close>; it does not look at
  them), pads an odd number of digits with a leading \<open>0\<close>, and reads the digits in
  pairs; a pair with a character that is no hex digit throws.
\<close>

fun hexPairs :: "string \<Rightarrow> error + ByteArray" where
  "hexPairs (l # r # cs) =
     (case charCodeToBase16 l of
        None \<Rightarrow> Inl InvalidByteSequence
      | Some nibbleLeft \<Rightarrow>
         (case charCodeToBase16 r of
            None \<Rightarrow> Inl InvalidByteSequence
          | Some nibbleRight \<Rightarrow>
             (case hexPairs cs of
                Inl e \<Rightarrow> Inl e
              | Inr bytes \<Rightarrow> Inr (of_nat (nibbleLeft * 16 + nibbleRight) # bytes))))"
| "hexPairs cs = (if cs = [] then Inr [] else Inl InvalidByteSequence)"

definition hexToBytes :: "Hex \<Rightarrow> error + ByteArray" where
  "hexToBytes hex =
     (let hexString = slice_from 2 hex;
          hexString = (if odd (length hexString) then CHR ''0'' # hexString else hexString)
      in hexPairs hexString)"

text \<open>\<open>bytesToHex(bytes)\<close>: \<open>0x\<close> and two lower-case digits for each byte.\<close>

definition hexDigit :: "nat \<Rightarrow> char" where
  "hexDigit d = ''0123456789abcdef'' ! d"

definition hexes :: "byte \<Rightarrow> string" where
  "hexes b = [hexDigit (unat b div 16), hexDigit (unat b mod 16)]"

definition bytesToHex :: "ByteArray \<Rightarrow> Hex" where
  "bytesToHex bytes = ''0x'' @ concat (map hexes bytes)"

text \<open>The big-endian number of a byte array (\<open>b2n\<close> of noble, \<open>bytesToNumber\<close>).\<close>

definition bytesToNumber :: "ByteArray \<Rightarrow> int" where
  "bytesToNumber bytes = foldl (\<lambda>acc b. acc * 256 + uint b) 0 bytes"

subsection \<open>JavaScript \<open>bigint\<close>\<close>

text \<open>
  \<open>BigInt(string)\<close> (StringToBigInt of ECMAScript): white space around the literal is
  dropped; the empty string is \<open>0n\<close>; a literal is \<open>0x\<close>, \<open>0o\<close> or \<open>0b\<close> (either
  case) and digits of that radix, or decimal digits with an optional sign; anything
  else throws \<open>SyntaxError\<close>.
\<close>

definition isStrWhiteSpaceChar :: "char \<Rightarrow> bool" where
  "isStrWhiteSpaceChar c = ((of_char c :: nat) \<in> {9, 10, 11, 12, 13, 32, 160})"

definition trimString :: "string \<Rightarrow> string" where
  "trimString s = rev (dropWhile isStrWhiteSpaceChar (rev (dropWhile isStrWhiteSpaceChar s)))"

definition digitStep :: "nat \<Rightarrow> int option \<Rightarrow> char \<Rightarrow> int option" where
  "digitStep radix acc c =
     (case acc of
        None \<Rightarrow> None
      | Some a \<Rightarrow>
         (case charCodeToBase16 c of
            None \<Rightarrow> None
          | Some d \<Rightarrow> if d < radix then Some (a * int radix + int d) else None))"

definition digitsValue :: "nat \<Rightarrow> string \<Rightarrow> error + int" where
  "digitsValue radix ds =
     (if ds = [] then Inl SyntaxError
      else case foldl (digitStep radix) (Some 0) ds of
             None \<Rightarrow> Inl SyntaxError
           | Some v \<Rightarrow> Inr v)"

definition BigInt :: "string \<Rightarrow> error + int" where
  "BigInt str =
     (let s = trimString str in
      if s = [] then Inr 0
      else if take 2 s = ''0x'' \<or> take 2 s = ''0X'' then digitsValue 16 (drop 2 s)
      else if take 2 s = ''0o'' \<or> take 2 s = ''0O'' then digitsValue 8 (drop 2 s)
      else if take 2 s = ''0b'' \<or> take 2 s = ''0B'' then digitsValue 2 (drop 2 s)
      else if hd s = CHR ''+'' then digitsValue 10 (tl s)
      else if hd s = CHR ''-'' then map_sum id uminus (digitsValue 10 (tl s))
      else digitsValue 10 s)"

text \<open>The \<open>%\<close> of \<open>bigint\<close> truncates: the remainder has the sign of the dividend.\<close>

definition bigint_rem :: "int \<Rightarrow> int \<Rightarrow> int" where
  "bigint_rem a b = sgn a * (\<bar>a\<bar> mod \<bar>b\<bar>)"

text \<open>\<open>x.toString(16)\<close> and \<open>s.padStart(n, c)\<close>.\<close>

function toString16_nat :: "nat \<Rightarrow> string" where
  "toString16_nat n =
     (if n < 16 then [hexDigit n] else toString16_nat (n div 16) @ [hexDigit (n mod 16)])"
  by pat_completeness auto
termination
  by (relation "measure id") auto

declare toString16_nat.simps [simp del]

definition toString16 :: "int \<Rightarrow> string" where
  "toString16 x =
     (if x < 0 then CHR ''-'' # toString16_nat (nat (- x)) else toString16_nat (nat x))"

definition padStart :: "nat \<Rightarrow> char \<Rightarrow> string \<Rightarrow> string" where
  "padStart n c s = replicate (n - length s) c @ s"

subsection \<open>Calls that may throw\<close>

text \<open>
  \<open>andThen r f\<close> is a call that returned \<open>r\<close>, followed by the rest \<open>f\<close> of the
  function body: a thrown error ends the body.
\<close>

fun andThen :: "error + 'a \<Rightarrow> ('a \<Rightarrow> error + 'b) \<Rightarrow> error + 'b" where
  "andThen (Inl e) f = Inl e"
| "andThen (Inr x) f = f x"

section \<open>The libraries the wallet calls\<close>

text \<open>
  The curve arithmetic (@noble/secp256k1), the hash (@noble/hashes) and the address
  function (viem) are not code of this repository: they are the fields of a record
  that the functions of the wallet take as their first argument. \<open>'p\<close> is the
  library's type of curve points.
\<close>

record 'p crypto_lib =
  BASE :: 'p
  pointMultiply :: "'p \<Rightarrow> int \<Rightarrow> 'p"
  pointAdd :: "'p \<Rightarrow> 'p \<Rightarrow> 'p"
  fromBytes :: "ByteArray \<Rightarrow> 'p option"
  fromHexString :: "string \<Rightarrow> 'p option"
  toRawBytes :: "'p \<Rightarrow> bool \<Rightarrow> ByteArray"
  keccak_256 :: "ByteArray \<Rightarrow> ByteArray"
  publicKeyToAddress :: "Hex \<Rightarrow> Hex"

text \<open>
  \<^item> \<open>BASE\<close> is \<open>ProjectivePoint.BASE\<close>, the generator;
  \<^item> \<open>pointMultiply P k\<close> is \<open>P.multiply(k)\<close> for a scalar \<open>k\<close> in \<open>[1, n-1]\<close> (the range
    check of the library is \<open>toPriv\<close> below), \<open>pointAdd P Q\<close> is \<open>P.add(Q)\<close>;
  \<^item> \<open>fromBytes\<close> and \<open>fromHexString\<close> are \<open>ProjectivePoint.fromHex\<close> on a byte array
    and on a hex string without \<open>0x\<close>; \<open>None\<close> is its \<open>throw\<close>;
  \<^item> \<open>toRawBytes P c\<close> is \<open>P.toRawBytes(c)\<close>: 33 bytes compressed, 65 bytes otherwise. It
    is taken to return for every point. The versions of the library differ on the point
    at infinity (some write it as zeros, some throw); the wallet can reach it only as the
    stealth point \<open>spendingPoint + hashedSecretPoint\<close>, and the statements below hold
    whatever is written for it;
  \<^item> \<open>keccak_256\<close> is the Keccak-256 digest, \<open>publicKeyToAddress\<close> the account address
    viem derives from an uncompressed public key.

  viem's \<open>keccak256(value)\<close> returns the digest as a hex string.
\<close>

definition keccak256 :: "'p crypto_lib \<Rightarrow> ByteArray \<Rightarrow> Hex" where
  "keccak256 L bytes = bytesToHex (keccak_256 L bytes)"

text \<open>
  noble's \<open>toPriv\<close>: a private key is 32 bytes whose big-endian number \<open>k\<close> has
  \<open>0 < k < n\<close>; anything else throws.
\<close>

definition validScalar :: "int \<Rightarrow> bool" where
  "validScalar k = (0 < k \<and> k < CURVE_ORDER)"

definition toPriv :: "ByteArray \<Rightarrow> error + int" where
  "toPriv p =
     (if length p \<noteq> 32 then Inl InvalidPrivateKey
      else if validScalar (bytesToNumber p) then Inr (bytesToNumber p)
      else Inl InvalidPrivateKey)"

definition Point_fromPrivateKey :: "'p crypto_lib \<Rightarrow> ByteArray \<Rightarrow> error + 'p" where
  "Point_fromPrivateKey L k = andThen (toPriv k) (\<lambda>d. Inr (pointMultiply L (BASE L) d))"

definition Point_fromHex :: "'p crypto_lib \<Rightarrow> string \<Rightarrow> error + 'p" where
  "Point_fromHex L hex =
     (case fromHexString L hex of None \<Rightarrow> Inl PointInvalid | Some p \<Rightarrow> Inr p)"

definition getPublicKey :: "'p crypto_lib \<Rightarrow> ByteArray \<Rightarrow> bool \<Rightarrow> error + ByteArray" where
  "getPublicKey L privKey isCompressed =
     andThen (Point_fromPrivateKey L privKey) (\<lambda>p. Inr (toRawBytes L p isCompressed))"

text \<open>
  \<open>getSharedSecret(privA, pubB)\<close> is
  \<open>Point.fromHex(pubB).mul(toPriv(privA)).toRawBytes(true)\<close>: the compressed ECDH point.
\<close>

definition getSharedSecret :: "'p crypto_lib \<Rightarrow> ByteArray \<Rightarrow> ByteArray \<Rightarrow> error + ByteArray" where
  "getSharedSecret L privA pubB =
     (case fromBytes L pubB of
        None \<Rightarrow> Inl PointInvalid
      | Some p \<Rightarrow> andThen (toPriv privA) (\<lambda>d. Inr (toRawBytes L (pointMultiply L p d) True)))"

section \<open>Stealth addresses (\<open>lib/types\<close>, \<open>lib/crypto\<close>)\<close>

text \<open>
  The interfaces of \<open>lib/types\<close>. The public half of \<open>StealthKeys\<close> is a record of its
  own: \<open>createStealthMetaAddress\<close> reads only these two fields, and
  \<open>parseStealthMetaAddress\<close> returns only them.
\<close>

record PublicKeys =
  spendingPublicKey :: Hex
  viewingPublicKey :: Hex

record StealthKeys = PublicKeys +
  spendingPrivateKey :: Hex
  viewingPrivateKey :: Hex

record AnnouncementData =
  schemeId :: int
  stealthAddress :: Hex
  caller :: Hex
  ephemeralPubKey :: Hex
  metadata :: Hex
  blockNumber :: int
  transactionHash :: Hex

record OwnedStealthAddress =
  address :: Hex
  privateKey :: Hex
  balance :: int
  announcement :: AnnouncementData

record StealthAddressInfo =
  stealthAddress :: Hex
  ephemeralPublicKey :: Hex
  viewTag :: Hex

text \<open>
  \<open>generateRandomKeys\<close>; the two results of \<open>utils.randomPrivateKey()\<close> are arguments.
\<close>

definition generateRandomKeys ::
  "'p crypto_lib \<Rightarrow> ByteArray \<Rightarrow> ByteArray \<Rightarrow> error + StealthKeys" where
  "generateRandomKeys L spendingPrivateKey' viewingPrivateKey' =
     andThen (getPublicKey L spendingPrivateKey' True) (\<lambda>spendingPublicKey'.
     andThen (getPublicKey L viewingPrivateKey' True) (\<lambda>viewingPublicKey'.
     Inr \<lparr>spendingPublicKey = bytesToHex spendingPublicKey',
          viewingPublicKey = bytesToHex viewingPublicKey',
          spendingPrivateKey = bytesToHex spendingPrivateKey',
          viewingPrivateKey = bytesToHex viewingPrivateKey'\<rparr>))"

definition createStealthMetaAddress :: "'a PublicKeys_scheme \<Rightarrow> Hex" where
  "createStealthMetaAddress keys =
     (let spending = slice_from 2 (spendingPublicKey keys);
          viewing = slice_from 2 (viewingPublicKey keys)
      in ''0x'' @ spending @ viewing)"

definition parseStealthMetaAddress :: "Hex \<Rightarrow> error + PublicKeys" where
  "parseStealthMetaAddress metaAddress =
     (let cleaned = slice_from 2 metaAddress in
      if length cleaned = 66
      then Inr \<lparr>spendingPublicKey = ''0x'' @ cleaned, viewingPublicKey = ''0x'' @ cleaned\<rparr>
      else if length cleaned \<noteq> 132 then Inl InvalidMetaAddressLength
      else Inr \<lparr>spendingPublicKey = ''0x'' @ slice 0 66 cleaned,
                viewingPublicKey = ''0x'' @ slice_from 66 cleaned\<rparr>)"

text \<open>
  \<open>generateStealthAddress(recipientMetaAddress, ephemeralPrivateKey?)\<close>; \<open>fresh\<close> is
  what \<open>utils.randomPrivateKey()\<close> returns when no ephemeral key is passed.
\<close>

definition generateStealthAddress ::
  "'p crypto_lib \<Rightarrow> Hex \<Rightarrow> ByteArray option \<Rightarrow> ByteArray \<Rightarrow> error + StealthAddressInfo" where
  "generateStealthAddress L recipientMetaAddress ephemeralPrivateKey fresh =
     andThen (parseStealthMetaAddress recipientMetaAddress) (\<lambda>keys.
     let ephPrivKey = (case ephemeralPrivateKey of Some k \<Rightarrow> k | None \<Rightarrow> fresh) in
     andThen (getPublicKey L ephPrivKey True) (\<lambda>ephPubKey.
     andThen (hexToBytes (viewingPublicKey keys)) (\<lambda>viewingBytes.
     andThen (getSharedSecret L ephPrivKey viewingBytes) (\<lambda>sharedSecret.
     let hashedSecret = keccak256 L sharedSecret;
         viewTag' = ''0x'' @ slice 2 4 hashedSecret
     in
     andThen (Point_fromHex L (slice_from 2 (spendingPublicKey keys))) (\<lambda>spendingPoint.
     andThen (hexToBytes hashedSecret) (\<lambda>hashedBytes.
     andThen (Point_fromPrivateKey L hashedBytes) (\<lambda>hashedSecretPoint.
     let stealthPublicKey = toRawBytes L (pointAdd L spendingPoint hashedSecretPoint) False;
         stealthAddress' = publicKeyToAddress L (bytesToHex stealthPublicKey)
     in Inr \<lparr>stealthAddress = stealthAddress',
             ephemeralPublicKey = bytesToHex ephPubKey,
             viewTag = viewTag'\<rparr>)))))))"

definition checkStealthAddress ::
  "'p crypto_lib \<Rightarrow> Hex \<Rightarrow> Hex \<Rightarrow> Hex \<Rightarrow> Hex \<Rightarrow> Hex \<Rightarrow> error + bool" where
  "checkStealthAddress L ephemeralPublicKey' spendingPublicKey' viewingPrivateKey'
       announcedAddress announcedViewTag =
     andThen (hexToBytes viewingPrivateKey') (\<lambda>viewingBytes.
     andThen (hexToBytes ephemeralPublicKey') (\<lambda>ephemeralBytes.
     andThen (getSharedSecret L viewingBytes ephemeralBytes) (\<lambda>sharedSecret.
     let hashedSecret = keccak256 L sharedSecret;
         computedViewTag = ''0x'' @ slice 2 4 hashedSecret
     in
     if toLowerCase computedViewTag \<noteq> toLowerCase announcedViewTag then Inr False
     else
     andThen (Point_fromHex L (slice_from 2 spendingPublicKey')) (\<lambda>spendingPoint.
     andThen (hexToBytes hashedSecret) (\<lambda>hashedBytes.
     andThen (Point_fromPrivateKey L hashedBytes) (\<lambda>hashedSecretPoint.
     let stealthPublicKey = toRawBytes L (pointAdd L spendingPoint hashedSecretPoint) False;
         computedAddress = publicKeyToAddress L (bytesToHex stealthPublicKey)
     in Inr (toLowerCase computedAddress = toLowerCase announcedAddress)))))))"

definition computeStealthPrivateKey ::
  "'p crypto_lib \<Rightarrow> Hex \<Rightarrow> Hex \<Rightarrow> Hex \<Rightarrow> error + Hex" where
  "computeStealthPrivateKey L ephemeralPublicKey' spendingPrivateKey' viewingPrivateKey' =
     andThen (hexToBytes viewingPrivateKey') (\<lambda>viewingBytes.
     andThen (hexToBytes ephemeralPublicKey') (\<lambda>ephemeralBytes.
     andThen (getSharedSecret L viewingBytes ephemeralBytes) (\<lambda>sharedSecret.
     let hashedSecret = keccak256 L sharedSecret in
     andThen (BigInt spendingPrivateKey') (\<lambda>spendingBigInt.
     andThen (BigInt hashedSecret) (\<lambda>hashedBigInt.
     let stealthPrivateKeyBigInt = bigint_rem (spendingBigInt + hashedBigInt) CURVE_ORDER
     in Inr (''0x'' @ padStart 64 (CHR ''0'') (toString16 stealthPrivateKeyBigInt)))))))"

text \<open>
  \<open>createAnnouncementMetadata(viewTag, extraData?)\<close>: an absent and an empty
  \<open>extraData\<close> are both falsy. \<open>extractViewTag(metadata)\<close> has no \<open>throw\<close>.
\<close>

definition createAnnouncementMetadata :: "Hex \<Rightarrow> Hex option \<Rightarrow> Hex" where
  "createAnnouncementMetadata viewTag' extraData =
     (let viewTagByte = slice 2 4 viewTag';
          extra = (case extraData of
                     None \<Rightarrow> []
                   | Some e \<Rightarrow> if e = [] then [] else slice_from 2 e)
      in ''0x'' @ viewTagByte @ extra)"

definition extractViewTag :: "Hex \<Rightarrow> Hex" where
  "extractViewTag metadata' = ''0x'' @ slice 2 4 metadata'"

section \<open>Scanning the announcements (\<open>commands/receive\<close>)\<close>

text \<open>
  The \<open>for (const announcement of announcements)\<close> loop of \<open>receiveCommand\<close>, with the
  array \<open>ownedAddresses\<close> it pushes to. Nothing in the loop catches: an error thrown by
  \<open>checkStealthAddress\<close> or \<open>computeStealthPrivateKey\<close> leaves the loop and the
  command. (The spinner text the loop updates every 100 announcements is display only.)
\<close>

fun scanAnnouncements ::
  "'p crypto_lib \<Rightarrow> StealthKeys \<Rightarrow> AnnouncementData list \<Rightarrow> OwnedStealthAddress list
     \<Rightarrow> error + OwnedStealthAddress list" where
  "scanAnnouncements L keys [] ownedAddresses = Inr ownedAddresses"
| "scanAnnouncements L keys (ann # announcements) ownedAddresses =
     (let viewTag' = extractViewTag (metadata ann) in
      andThen (checkStealthAddress L (ephemeralPubKey ann) (spendingPublicKey keys)
                 (viewingPrivateKey keys) (AnnouncementData.stealthAddress ann) viewTag')
        (\<lambda>isOurs.
          if isOurs then
            andThen (computeStealthPrivateKey L (ephemeralPubKey ann)
                       (spendingPrivateKey keys) (viewingPrivateKey keys))
              (\<lambda>privateKey'.
                scanAnnouncements L keys announcements
                  (ownedAddresses @
                    [\<lparr>address = AnnouncementData.stealthAddress ann,
                      privateKey = privateKey',
                      balance = 0,
                      announcement = ann\<rparr>]))
          else scanAnnouncements L keys announcements ownedAddresses))"

section \<open>The wallet cipher (\<open>lib/crypto\<close>)\<close>














section \<open>What the wallet relies on\<close>

text \<open>
  The account address of a private key, as viem's \<open>privateKeyToAccount(key).address\<close>
  derives it: \<open>key.slice(2)\<close> goes to the \<open>getPublicKey\<close> of the curve library as a hex
  string, which is a private key only when it is 64 hex digits (of a valid scalar); a
  string of another length or with another character throws as an invalid private key
  does. The address is that of the uncompressed public key.
\<close>

definition privateKeyToAddress :: "'p crypto_lib \<Rightarrow> Hex \<Rightarrow> error + Hex" where
  "privateKeyToAddress L privateKey' =
     (if length (slice_from 2 privateKey') \<noteq> 64 then Inl InvalidPrivateKey
      else case hexToBytes privateKey' of
             Inl e \<Rightarrow> Inl InvalidPrivateKey
           | Inr keyBytes \<Rightarrow>
               andThen (getPublicKey L keyBytes False) (\<lambda>publicKey.
               Inr (publicKeyToAddress L (bytesToHex publicKey))))"

text \<open>
  The facts about the curve library that the scheme uses, each on valid scalars only
  (\<open>G\<close> is \<open>BASE\<close>):
  \<^item> Diffie-Hellman: \<open>(G * a) * b = (G * b) * a\<close>;
  \<^item> \<open>G * ((a + b) mod n) = G * a + G * b\<close> where \<open>(a + b) mod n\<close> is a valid scalar;
  \<^item> a public key \<open>G * a\<close> is read back from its bytes and from their hex string;
  \<^item> a compressed point has 33 bytes.
  And of the hash: a digest has 32 bytes.
\<close>

definition curve_laws :: "'p crypto_lib \<Rightarrow> bool" where
  "curve_laws L =
     ((\<forall>a b. validScalar a \<longrightarrow> validScalar b \<longrightarrow>
         pointMultiply L (pointMultiply L (BASE L) a) b
           = pointMultiply L (pointMultiply L (BASE L) b) a)
    \<and> (\<forall>a b. validScalar a \<longrightarrow> validScalar b \<longrightarrow> validScalar ((a + b) mod CURVE_ORDER) \<longrightarrow>
         pointMultiply L (BASE L) ((a + b) mod CURVE_ORDER)
           = pointAdd L (pointMultiply L (BASE L) a) (pointMultiply L (BASE L) b))
    \<and> (\<forall>a c. validScalar a \<longrightarrow>
         fromBytes L (toRawBytes L (pointMultiply L (BASE L) a) c)
           = Some (pointMultiply L (BASE L) a))
    \<and> (\<forall>a c. validScalar a \<longrightarrow>
         fromHexString L (slice_from 2 (bytesToHex (toRawBytes L (pointMultiply L (BASE L) a) c)))
           = Some (pointMultiply L (BASE L) a))
    \<and> (\<forall>P. length (toRawBytes L P True) = 33))"

definition digest_laws :: "'p crypto_lib \<Rightarrow> bool" where
  "digest_laws L = (\<forall>bytes. length (keccak_256 L bytes) = 32)"

section \<open>A library to run the wallet on\<close>

text \<open>
  To evaluate the functions above on concrete inputs, the record is filled with a small
  library that has the laws above. The group of the curve is cyclic of order
  \<open>CURVE_ORDER\<close>, so a point is represented by its discrete logarithm: \<open>BASE\<close> is \<open>1\<close>,
  adding points adds, and multiplying by a scalar multiplies, modulo \<open>CURVE_ORDER\<close>. A
  point is written as a prefix byte (\<open>02\<close> compressed, \<open>04\<close> otherwise) and 32 bytes
  big-endian (twice, for the two coordinates, when not compressed). The digest of a
  byte array is its last 32 bytes (its number modulo \<open>2^256\<close>); the address of a public
  key is its last 40 hex digits. (The logarithm \<open>0\<close>, the point at infinity, would be
  written with zeros; no evaluation below writes it.)
\<close>

fun numberToBytesBE :: "nat \<Rightarrow> nat \<Rightarrow> ByteArray" where
  "numberToBytesBE 0 x = []"
| "numberToBytesBE (Suc len) x = numberToBytesBE len (x div 256) @ [of_nat (x mod 256)]"

definition logFromBytes :: "ByteArray \<Rightarrow> int option" where
  "logFromBytes bytes =
     (if (length bytes = 33 \<and> (hd bytes = 2 \<or> hd bytes = 3)) \<or> (length bytes = 65 \<and> hd bytes = 4)
      then (let x = bytesToNumber (take 32 (tl bytes)) in
            if validScalar x then Some x else None)
      else None)"

definition logLib :: "int crypto_lib" where
  "logLib =
     \<lparr>BASE = 1,
      pointMultiply = (\<lambda>P k. (P * k) mod CURVE_ORDER),
      pointAdd = (\<lambda>P Q. (P + Q) mod CURVE_ORDER),
      fromBytes = logFromBytes,
      fromHexString = (\<lambda>hex. case hexToBytes (''0x'' @ hex) of
                               Inl e \<Rightarrow> None
                             | Inr bytes \<Rightarrow> logFromBytes bytes),
      toRawBytes = (\<lambda>P isCompressed.
                      if isCompressed then 2 # numberToBytesBE 32 (nat P)
                      else 4 # numberToBytesBE 32 (nat P) @ numberToBytesBE 32 (nat P)),
      keccak_256 = (\<lambda>bytes. numberToBytesBE 32 (nat (bytesToNumber bytes))),
      publicKeyToAddress = (\<lambda>publicKey. ''0x'' @ drop (length publicKey - 40) publicKey)\<rparr>"

text \<open>
  \<open>fixedHex w n\<close> is the number \<open>n\<close> in exactly \<open>w\<close> hex digits (its low \<open>w\<close> digits): what
  \<open>padStart\<close> makes of \<open>toString(16)\<close>. It is used in the proofs only.
\<close>

fun fixedHex :: "nat \<Rightarrow> nat \<Rightarrow> string" where
  "fixedHex 0 n = []"
| "fixedHex (Suc w) n = fixedHex w (n div 16) @ [hexDigit (n mod 16)]"

section \<open>A wallet, a payment\<close>

text \<open>
  Concrete inputs for the library above: the two private keys of a wallet, an ephemeral
  private key, and what the functions compute from them (the shared point, the stealth
  point, the keys as hex strings, the payment the sender announces).
\<close>

definition spendingKey0 :: ByteArray where
  "spendingKey0 = numberToBytesBE 32 0x1b84c5567b126440995d3ed5aaba0565d71e1834604819ff9c17f5e9d5dd078f"

definition viewingKey0 :: ByteArray where
  "viewingKey0 = numberToBytesBE 32 0x7c0f6b2d3a4e5f60718293a4b5c6d7e8f9011223344556677889900aabbc"

definition ephemeralKey0 :: ByteArray where
  "ephemeralKey0 = numberToBytesBE 32 0x9a3f"

definition sharedPoint0 :: ByteArray where
  "sharedPoint0 = 2 # numberToBytesBE 32 0x4abfce4495347ea97d047bf36ae259d1481fec2ca41b930a81f96a80ddef5b44"

definition keys0 :: StealthKeys where
  "keys0 =
     \<lparr>spendingPublicKey = ''0x021b84c5567b126440995d3ed5aaba0565d71e1834604819ff9c17f5e9d5dd078f'',
      viewingPublicKey = ''0x0200007c0f6b2d3a4e5f60718293a4b5c6d7e8f9011223344556677889900aabbc'',
      spendingPrivateKey = ''0x1b84c5567b126440995d3ed5aaba0565d71e1834604819ff9c17f5e9d5dd078f'',
      viewingPrivateKey = ''0x00007c0f6b2d3a4e5f60718293a4b5c6d7e8f9011223344556677889900aabbc''\<rparr>"

definition payment0 :: StealthAddressInfo where
  "payment0 =
     \<lparr>stealthAddress = ''0x159c5f371f3e04610463ad0a1e11606ab3cc62d3'',
      ephemeralPublicKey = ''0x020000000000000000000000000000000000000000000000000000000000009a3f'',
      viewTag = ''0x4a''\<rparr>"

definition stealthPoint0 :: ByteArray where
  "stealthPoint0 = numberToBytesBE 32 0x6644939b1046e2ea1661bac9159c5f371f3e04610463ad0a1e11606ab3cc62d3"

definition recoveredKey0 :: Hex where
  "recoveredKey0 = ''0x6644939b1046e2ea1661bac9159c5f371f3e04610463ad0a1e11606ab3cc62d3''"

definition spendingKeyZ :: ByteArray where
  "spendingKeyZ = numberToBytesBE 32 0xb54031bb6acb815682fb840c951da62d728ef0ba0b2d0d313dd8f40bf246e5fd"

definition spendingPrivateKeyZ :: Hex where
  "spendingPrivateKeyZ = ''0xb54031bb6acb815682fb840c951da62d728ef0ba0b2d0d313dd8f40bf246e5fd''"

definition zeroKey :: Hex where
  "zeroKey = ''0x0000000000000000000000000000000000000000000000000000000000000000''"

definition keysZ :: StealthKeys where
  "keysZ =
     \<lparr>spendingPublicKey = ''0x02b54031bb6acb815682fb840c951da62d728ef0ba0b2d0d313dd8f40bf246e5fd'',
      viewingPublicKey = ''0x0200007c0f6b2d3a4e5f60718293a4b5c6d7e8f9011223344556677889900aabbc'',
      spendingPrivateKey = ''0xb54031bb6acb815682fb840c951da62d728ef0ba0b2d0d313dd8f40bf246e5fd'',
      viewingPrivateKey = ''0x00007c0f6b2d3a4e5f60718293a4b5c6d7e8f9011223344556677889900aabbc''\<rparr>"

text \<open>
  A library whose digest of every byte array is \<open>2^256 - 1\<close>, a number that is no scalar;
  the rest is the library of discrete logarithms.
\<close>

definition allOnes :: ByteArray where
  "allOnes = numberToBytesBE 32 0xffffffffffffffffffffffffffffffffffffffffffffffffffffffffffffffff"

definition maxLib :: "int crypto_lib" where
  "maxLib = logLib\<lparr>keccak_256 := \<lambda>bytes. allOnes\<rparr>"

definition wrappedPoint :: ByteArray where
  "wrappedPoint = numberToBytesBE 32 0x1b84c5567b126440995d3ed5aaba05671c6f3b4db0ff79c3dc45975d05a6c64d"

definition wrappedKey :: Hex where
  "wrappedKey = ''0x1b84c5567b126440995d3ed5aaba05671c6f3b4db0ff79c3dc45975d05a6c64d''"

text \<open>
  The scanner in the words of the specification: \<open>recognize\<close> is \<open>checkStealthAddress\<close>
  with the keys of the wallet and the view tag extracted from the metadata of the
  announcement, \<open>recoverPrivateKey\<close> is \<open>computeStealthPrivateKey\<close> with the keys of the
  wallet, and \<open>scan_spec\<close> is the sequence the scan is said to yield: the recognized
  announcements, in their order, each with its recovered key.
\<close>

definition recognize :: "'p crypto_lib \<Rightarrow> StealthKeys \<Rightarrow> AnnouncementData \<Rightarrow> error + bool" where
  "recognize L keys ann =
     checkStealthAddress L (ephemeralPubKey ann) (spendingPublicKey keys) (viewingPrivateKey keys)
       (AnnouncementData.stealthAddress ann) (extractViewTag (metadata ann))"

definition recoverPrivateKey :: "'p crypto_lib \<Rightarrow> StealthKeys \<Rightarrow> AnnouncementData \<Rightarrow> error + Hex" where
  "recoverPrivateKey L keys ann =
     computeStealthPrivateKey L (ephemeralPubKey ann) (spendingPrivateKey keys) (viewingPrivateKey keys)"

definition scan_spec ::
  "'p crypto_lib \<Rightarrow> StealthKeys \<Rightarrow> AnnouncementData list \<Rightarrow> OwnedStealthAddress list" where
  "scan_spec L keys anns =
     map (\<lambda>ann. \<lparr>address = AnnouncementData.stealthAddress ann,
                 privateKey = projr (recoverPrivateKey L keys ann),
                 balance = 0,
                 announcement = ann\<rparr>)
       (filter (\<lambda>ann. recognize L keys ann = Inr True) anns)"

text \<open>
  Announcements for the wallet above: the payment, the payment announced once more in a
  later block, an announcement with another view tag, and one whose ephemeral public key
  has no bytes.
\<close>

definition announcement0 :: AnnouncementData where
  "announcement0 =
     \<lparr>schemeId = 1,
      stealthAddress = ''0x159c5f371f3e04610463ad0a1e11606ab3cc62d3'',
      caller = ''0x00000000000000000000000000000000000000c1'',
      ephemeralPubKey = ''0x020000000000000000000000000000000000000000000000000000000000009a3f'',
      metadata = ''0x4a'',
      blockNumber = 100,
      transactionHash = ''0xa0''\<rparr>"

definition announcement1 :: AnnouncementData where
  "announcement1 = announcement0\<lparr>blockNumber := 102, transactionHash := ''0xa2''\<rparr>"

definition stranger0 :: AnnouncementData where
  "stranger0 = announcement0\<lparr>metadata := ''0x4b'', blockNumber := 101, transactionHash := ''0xa1''\<rparr>"

definition malformed0 :: AnnouncementData where
  "malformed0 = announcement0\<lparr>ephemeralPubKey := ''0x'', blockNumber := 101, transactionHash := ''0xa1''\<rparr>"

















section \<open>Hex strings and byte arrays\<close>

lemma nat_lt16_cases:
  "d < 16 \<Longrightarrow> d \<in> {0, 1, 2, 3, 4, 5, 6, 7, 8, 9, 10, 11, 12, 13, 14, 15::nat}"
  by simp arith

lemma charCodeToBase16_hexDigit: "d < 16 \<Longrightarrow> charCodeToBase16 (hexDigit d) = Some d"
  using nat_lt16_cases [of d]
  by (auto simp: hexDigit_def charCodeToBase16_def)

lemma length_hexes [simp]: "length (hexes b) = 2"
  by (simp add: hexes_def)

lemma length_concat_hexes [simp]: "length (concat (map hexes bs)) = 2 * length bs"
  by (induction bs) simp_all

lemma length_bytesToHex [simp]: "length (bytesToHex bs) = 2 + 2 * length bs"
  by (simp add: bytesToHex_def)

lemma unat_byte_lt: "unat (b :: byte) < 256"
  using unsigned_less [of b] by simp

lemma byte_nibbles: "(of_nat (unat b div 16 * 16 + unat b mod 16) :: byte) = b"
  by simp

lemma hexPairs_hexes: "hexPairs (hexes b @ cs) = (case hexPairs cs of Inl e \<Rightarrow> Inl e | Inr bs \<Rightarrow> Inr (b # bs))"
proof -
  have "unat b div 16 < 16" using unat_byte_lt [of b] by simp
  then show ?thesis
    by (simp add: hexes_def charCodeToBase16_hexDigit split: sum.splits)
qed

lemma hexPairs_concat_hexes: "hexPairs (concat (map hexes bs)) = Inr bs"
  by (induction bs) (simp_all add: hexPairs_hexes)

lemma hexToBytes_bytesToHex [simp]: "hexToBytes (bytesToHex bs) = Inr bs"
  by (simp add: hexToBytes_def bytesToHex_def slice_from_def hexPairs_concat_hexes)


lemma bytesToNumber_foldl:
  "foldl (\<lambda>acc b. acc * 256 + uint (b::byte)) a bs = a * 256 ^ length bs + bytesToNumber bs"
  unfolding bytesToNumber_def
proof (induction bs arbitrary: a)
  case Nil
  show ?case by simp
next
  case (Cons b bs)
  have 1: "foldl (\<lambda>acc b. acc * 256 + uint (b::byte)) (a * 256 + uint b) bs
             = (a * 256 + uint b) * 256 ^ length bs + foldl (\<lambda>acc b. acc * 256 + uint (b::byte)) 0 bs"
    by (rule Cons.IH)
  have 2: "foldl (\<lambda>acc b. acc * 256 + uint (b::byte)) (uint b) bs
             = uint b * 256 ^ length bs + foldl (\<lambda>acc b. acc * 256 + uint (b::byte)) 0 bs"
    by (rule Cons.IH)
  show ?case
    by (simp add: 1 2 ring_distribs)
qed

lemma bytesToNumber_Nil [simp]: "bytesToNumber [] = 0"
  by (simp add: bytesToNumber_def)

lemma bytesToNumber_Cons:
  "bytesToNumber (b # bs) = int (unat b) * 256 ^ length bs + bytesToNumber bs"
  using bytesToNumber_foldl [of "uint b" bs] by (simp add: bytesToNumber_def)

lemma bytesToNumber_append:
  "bytesToNumber (as @ bs) = bytesToNumber as * 256 ^ length bs + bytesToNumber bs"
  using bytesToNumber_foldl [of "bytesToNumber as" bs] by (simp add: bytesToNumber_def)

lemma bytesToNumber_nonneg: "0 \<le> bytesToNumber bs"
  by (induction bs) (simp_all add: bytesToNumber_Cons)

lemma bytesToNumber_bound: "bytesToNumber bs < 256 ^ length bs"
proof (induction bs rule: rev_induct)
  case Nil
  show ?case by simp
next
  case (snoc b bs)
  have "uint b < 256" using unsigned_less [of b, where ?'a = int] by simp
  then show ?case using snoc
    by (simp add: bytesToNumber_append bytesToNumber_Cons) 
qed

section \<open>Reading a hex string as a \<open>bigint\<close>\<close>

lemma digitStep_hexDigit:
  "d < 16 \<Longrightarrow> digitStep 16 (Some a) (hexDigit d) = Some (a * 16 + int d)"
  by (simp add: digitStep_def charCodeToBase16_hexDigit)

lemma byte_split_int: "(a * 16 + int (unat b div 16)) * 16 + int (unat b mod 16) = a * 256 + uint (b::byte)"
proof -
  have "int (unat b div 16) * 16 + int (unat b mod 16) = int (unat b)"
    by (simp add: zdiv_int zmod_int)
  then show ?thesis by (simp add: algebra_simps)
qed

lemma digitStep_hexes:
  "foldl (digitStep 16) (Some a) (hexes b @ cs) = foldl (digitStep 16) (Some (a * 256 + uint b)) cs"
proof -
  have lt: "unat b div 16 < 16" "unat b mod 16 < 16" using unat_byte_lt [of b] by simp_all
  have "foldl (digitStep 16) (Some a) (hexes b @ cs)
          = foldl (digitStep 16) (Some ((a * 16 + int (unat b div 16)) * 16 + int (unat b mod 16))) cs"
    unfolding hexes_def by (simp only: append_Cons append_Nil foldl_Cons digitStep_hexDigit [OF lt(1)] digitStep_hexDigit [OF lt(2)])
  then show ?thesis by (simp only: byte_split_int)
qed

lemma digitStep_concat_hexes:
  "foldl (digitStep 16) (Some a) (concat (map hexes bs))
     = Some (foldl (\<lambda>acc b. acc * 256 + uint b) a bs)"
  by (induction bs arbitrary: a) (simp_all add: digitStep_hexes del: foldl_append)

lemma hexes_ne [simp]: "hexes b \<noteq> []"
  by (simp add: hexes_def)

lemma digitsValue_concat_hexes:
  "bs \<noteq> [] \<Longrightarrow> digitsValue 16 (concat (map hexes bs)) = Inr (bytesToNumber bs)"
  by (simp add: digitsValue_def digitStep_concat_hexes bytesToNumber_def)

lemma not_ws_hexDigit: "d < 16 \<Longrightarrow> \<not> isStrWhiteSpaceChar (hexDigit d)"
  using nat_lt16_cases [of d]
  by (auto simp: hexDigit_def isStrWhiteSpaceChar_def)

lemma trimString_id:
  assumes "s \<noteq> []" "\<not> isStrWhiteSpaceChar (hd s)" "\<not> isStrWhiteSpaceChar (last s)"
  shows "trimString s = s"
proof -
  have 1: "dropWhile isStrWhiteSpaceChar s = s"
    using assms by (cases s) simp_all
  obtain ys y where s: "s = ys @ [y]"
    using assms(1) by (cases s rule: rev_cases) auto
  show ?thesis
    unfolding trimString_def 1 using assms(3) by (simp add: s)
qed

lemma last_concat_hexes:
  "bs \<noteq> [] \<Longrightarrow> last (concat (map hexes bs)) = hexDigit (unat (last bs) mod 16)"
  by (induction bs) (auto simp: hexes_def)

lemma trimString_bytesToHex: "bs \<noteq> [] \<Longrightarrow> trimString (bytesToHex bs) = bytesToHex bs"
proof (rule trimString_id)
  assume ne: "bs \<noteq> []"
  show "bytesToHex bs \<noteq> []" by (simp add: bytesToHex_def)
  show "\<not> isStrWhiteSpaceChar (hd (bytesToHex bs))"
    by (simp add: bytesToHex_def isStrWhiteSpaceChar_def)
  have "last (bytesToHex bs) = hexDigit (unat (last bs) mod 16)"
    using ne last_concat_hexes [OF ne] by (simp add: bytesToHex_def)
  moreover have "\<not> isStrWhiteSpaceChar (hexDigit (unat (last bs) mod 16))"
    by (rule not_ws_hexDigit) simp
  ultimately show "\<not> isStrWhiteSpaceChar (last (bytesToHex bs))" by simp
qed

lemma BigInt_bytesToHex: "bs \<noteq> [] \<Longrightarrow> BigInt (bytesToHex bs) = Inr (bytesToNumber bs)"
  by (simp add: BigInt_def trimString_bytesToHex Let_def)
     (simp add: bytesToHex_def digitsValue_concat_hexes)

section \<open>Big-endian bytes and padded hex\<close>

lemma length_numberToBytesBE [simp]: "length (numberToBytesBE len x) = len"
  by (induction len arbitrary: x) simp_all

lemma uint_byte_of_nat_mod: "uint (of_nat (x mod 256) :: byte) = int (x mod 256)"
  by (simp add: uint_nat unat_of_nat)

lemma bytesToNumber_numberToBytesBE:
  "x < 256 ^ len \<Longrightarrow> bytesToNumber (numberToBytesBE len x) = int x"
proof (induction len arbitrary: x)
  case 0
  then show ?case by simp
next
  case (Suc len)
  have "x div 256 < 256 ^ len" using Suc.prems by (simp add: less_mult_imp_div_less mult.commute)
  then have "bytesToNumber (numberToBytesBE len (x div 256)) = int (x div 256)" by (rule Suc.IH)
  then show ?case
    by (simp add: bytesToNumber_append bytesToNumber_Cons uint_byte_of_nat_mod zdiv_int zmod_int)
qed

lemma length_fixedHex [simp]: "length (fixedHex w n) = w"
  by (induction w arbitrary: n) simp_all

lemma fixedHex_zero: "fixedHex w 0 = replicate w (CHR ''0'')"
  by (induction w) (simp_all add: hexDigit_def replicate_append_same)

lemma length_toString16_nat: "n < 16 ^ Suc w \<Longrightarrow> length (toString16_nat n) \<le> Suc w"
proof (induction w arbitrary: n)
  case 0
  then show ?case by (subst toString16_nat.simps) simp
next
  case (Suc w)
  show ?case
  proof (cases "n < 16")
    case True
    then show ?thesis by (subst toString16_nat.simps) simp
  next
    case False
    have "n div 16 < 16 ^ Suc w" using Suc.prems by (simp add: less_mult_imp_div_less mult.commute)
    from Suc.IH [OF this] False show ?thesis
      by (subst toString16_nat.simps) simp
  qed
qed

lemma padStart_toString16_nat:
  "n < 16 ^ Suc w \<Longrightarrow> padStart (Suc w) (CHR ''0'') (toString16_nat n) = fixedHex (Suc w) n"
proof (induction w arbitrary: n)
  case 0
  then show ?case by (subst toString16_nat.simps) (simp add: padStart_def)
next
  case (Suc w)
  show ?case
  proof (cases "n < 16")
    case True
    then show ?thesis
      by (subst toString16_nat.simps) (simp add: padStart_def fixedHex_zero replicate_append_same)
  next
    case False
    have lt: "n div 16 < 16 ^ Suc w" using Suc.prems by (simp add: less_mult_imp_div_less mult.commute)
    have len: "length (toString16_nat (n div 16)) \<le> Suc w" by (rule length_toString16_nat [OF lt])
    have "padStart (Suc (Suc w)) (CHR ''0'') (toString16_nat n)
            = padStart (Suc w) (CHR ''0'') (toString16_nat (n div 16)) @ [hexDigit (n mod 16)]"
      using False len by (subst toString16_nat.simps) (simp add: padStart_def Suc_diff_le)
    then show ?thesis using Suc.IH [OF lt] by simp
  qed
qed

lemma fixedHex_bytes: "fixedHex (2 * len) n = concat (map hexes (numberToBytesBE len n))"
proof (induction len arbitrary: n)
  case 0
  show ?case by simp
next
  case (Suc len)
  have u: "unat (of_nat (n mod 256) :: byte) = n mod 256"
    by (simp add: unat_of_nat)
  have "fixedHex (2 * Suc len) n
          = fixedHex (2 * len) (n div 256) @ [hexDigit (n div 16 mod 16), hexDigit (n mod 16)]"
    using div_mult2_eq [of n 16 16] by simp
  also have "[hexDigit (n div 16 mod 16), hexDigit (n mod 16)] = hexes (of_nat (n mod 256))"
  proof -
    have m: "n mod 256 = 16 * (n div 16 mod 16) + n mod 16"
      using mod_mult2_eq [of n 16 16] by simp
    have "n mod 256 div 16 = n div 16 mod 16" "n mod 256 mod 16 = n mod 16"
      unfolding m by simp_all
    then show ?thesis unfolding hexes_def u by simp
  qed
  finally show ?case by (simp add: Suc.IH)
qed

lemma hex64_eq_bytesToHex:
  assumes "0 \<le> x" "x < 2 ^ 256"
  shows "''0x'' @ padStart 64 (CHR ''0'') (toString16 x) = bytesToHex (numberToBytesBE 32 (nat x))"
proof -
  have e1: "Suc 63 = 64" and e2: "2 * 32 = (64::nat)" by simp_all
  have "nat x < 2 ^ 256" using assms by (simp add: nat_less_iff)
  then have lt: "nat x < 16 ^ Suc 63" by simp
  have A: "padStart 64 (CHR ''0'') (toString16_nat (nat x)) = fixedHex 64 (nat x)"
    using padStart_toString16_nat [OF lt] unfolding e1 .
  have B: "fixedHex 64 (nat x) = concat (map hexes (numberToBytesBE 32 (nat x)))"
    using fixedHex_bytes [of 32 "nat x"] unfolding e2 .
  have C: "toString16 x = toString16_nat (nat x)"
    using assms(1) by (simp add: toString16_def)
  show ?thesis unfolding bytesToHex_def C A B ..
qed

section \<open>The laws hold in the library of discrete logarithms; lower case\<close>

lemma CURVE_ORDER_pos: "0 < CURVE_ORDER"
  by (simp add: CURVE_ORDER_def)

lemma CURVE_ORDER_lt: "CURVE_ORDER < 2 ^ 256"
  by (simp add: CURVE_ORDER_def)

lemma validScalar_nat_bound: "validScalar a \<Longrightarrow> nat a < 256 ^ 32"
  using CURVE_ORDER_lt by (simp add: validScalar_def nat_less_iff)

lemma validScalar_mod: "validScalar a \<Longrightarrow> a mod CURVE_ORDER = a"
  by (simp add: validScalar_def)

lemma slice_from_bytesToHex: "CHR ''0'' # CHR ''x'' # slice_from 2 (bytesToHex bs) = bytesToHex bs"
  by (simp add: slice_from_def bytesToHex_def)

lemma logFromBytes_compressed:
  "validScalar a \<Longrightarrow> logFromBytes (2 # numberToBytesBE 32 (nat a)) = Some a"
  using validScalar_nat_bound [of a]
  by (simp add: logFromBytes_def bytesToNumber_numberToBytesBE validScalar_def)

lemma logFromBytes_uncompressed:
  "validScalar a \<Longrightarrow> logFromBytes (4 # numberToBytesBE 32 (nat a) @ numberToBytesBE 32 (nat a)) = Some a"
  using validScalar_nat_bound [of a]
  by (simp add: logFromBytes_def bytesToNumber_numberToBytesBE validScalar_def)

lemma curve_laws_logLib: "curve_laws logLib"
  unfolding curve_laws_def
proof (intro conjI allI impI)
  fix a b :: int
  show "pointMultiply logLib (pointMultiply logLib (BASE logLib) a) b
          = pointMultiply logLib (pointMultiply logLib (BASE logLib) b) a"
    by (simp add: logLib_def mod_simps mult.commute)
  show "pointMultiply logLib (BASE logLib) ((a + b) mod CURVE_ORDER)
          = pointAdd logLib (pointMultiply logLib (BASE logLib) a) (pointMultiply logLib (BASE logLib) b)"
    by (simp add: logLib_def mod_simps)
next
  fix a :: int and c :: bool
  assume v: "validScalar a"
  show "fromBytes logLib (toRawBytes logLib (pointMultiply logLib (BASE logLib) a) c)
          = Some (pointMultiply logLib (BASE logLib) a)"
    using v by (simp add: logLib_def validScalar_mod logFromBytes_compressed logFromBytes_uncompressed)
  show "fromHexString logLib
          (slice_from 2 (bytesToHex (toRawBytes logLib (pointMultiply logLib (BASE logLib) a) c)))
          = Some (pointMultiply logLib (BASE logLib) a)"
    using v by (simp add: logLib_def validScalar_mod slice_from_bytesToHex
        logFromBytes_compressed logFromBytes_uncompressed)
next
  fix P :: int
  show "length (toRawBytes logLib P True) = 33"
    by (simp add: logLib_def)
qed

lemma digest_laws_logLib: "digest_laws logLib"
  by (simp add: digest_laws_def logLib_def)

lemma charCodeToBase16_lowerChar: "charCodeToBase16 (lowerChar c) = charCodeToBase16 c"
proof -
  have "(of_char c :: nat) < 256" by simp
  then show ?thesis
    by (auto simp: charCodeToBase16_def lowerChar_def Let_def)
qed

lemma hexPairs_toLowerCase: "hexPairs (map lowerChar s) = hexPairs s"
  by (induction s rule: hexPairs.induct)
     (simp_all add: charCodeToBase16_lowerChar split: option.splits sum.splits)

lemma lowerChar_zero: "lowerChar (CHR ''0'') = CHR ''0''"
  by (simp add: lowerChar_def)

lemma hexToBytes_toLowerCase: "hexToBytes (toLowerCase s) = hexToBytes s"
proof -
  have "CHR ''0'' # map lowerChar (drop 2 s) = map lowerChar (CHR ''0'' # drop 2 s)"
    by (simp add: lowerChar_zero)
  then show ?thesis
    unfolding hexToBytes_def toLowerCase_def slice_from_def Let_def
    by (simp add: drop_map hexPairs_toLowerCase del: list.map)
qed

section \<open>The meta-address and the metadata\<close>

lemma take_concat_hexes: "take (2 * k) (concat (map hexes bs)) = concat (map hexes (take k bs))"
proof (induction bs arbitrary: k)
  case Nil
  show ?case by simp
next
  case (Cons b bs)
  show ?case
  proof (cases k)
    case 0
    then show ?thesis by simp
  next
    case (Suc j)
    then show ?thesis using Cons.IH [of j] by (simp add: hexes_def)
  qed
qed

lemma drop_concat_hexes: "drop (2 * k) (concat (map hexes bs)) = concat (map hexes (drop k bs))"
proof (induction bs arbitrary: k)
  case Nil
  show ?case by simp
next
  case (Cons b bs)
  show ?case
  proof (cases k)
    case 0
    then show ?thesis by simp
  next
    case (Suc j)
    then show ?thesis using Cons.IH [of j] by (simp add: hexes_def)
  qed
qed

text \<open>
  Claim C7. \<open>parseStealthMetaAddress\<close> accepts two lengths. Of a 33-byte input it returns
  the one key as the spending and as the viewing public key; a 66-byte input it splits
  into its first 33 bytes (spending) and its last 33 bytes (viewing); on every other
  length, of bytes or of any string, it fails with \<open>InvalidMetaAddressLength\<close>. The
  bytes are arbitrary: the function takes no curve library and checks no point.
\<close>

theorem parseStealthMetaAddress_lengths:
  "(length bytes = 33 \<longrightarrow>
      parseStealthMetaAddress (bytesToHex bytes)
        = Inr \<lparr>spendingPublicKey = bytesToHex bytes, viewingPublicKey = bytesToHex bytes\<rparr>)
 \<and> (length bytes = 66 \<longrightarrow>
      parseStealthMetaAddress (bytesToHex bytes)
        = Inr \<lparr>spendingPublicKey = bytesToHex (take 33 bytes),
               viewingPublicKey = bytesToHex (drop 33 bytes)\<rparr>)
 \<and> (length bytes \<noteq> 33 \<and> length bytes \<noteq> 66 \<longrightarrow>
      parseStealthMetaAddress (bytesToHex bytes) = Inl InvalidMetaAddressLength)
 \<and> (length (slice_from 2 metaAddress) \<noteq> 66 \<and> length (slice_from 2 metaAddress) \<noteq> 132 \<longrightarrow>
      parseStealthMetaAddress metaAddress = Inl InvalidMetaAddressLength)"
proof (intro conjI impI)
  assume "length bytes = 33"
  then show "parseStealthMetaAddress (bytesToHex bytes)
        = Inr \<lparr>spendingPublicKey = bytesToHex bytes, viewingPublicKey = bytesToHex bytes\<rparr>"
    by (simp add: parseStealthMetaAddress_def slice_from_def bytesToHex_def Let_def)
next
  assume len: "length bytes = 66"
  have t: "take 66 (concat (map hexes bytes)) = concat (map hexes (take 33 bytes))"
    using take_concat_hexes [of 33 bytes] by simp
  have d: "drop 66 (concat (map hexes bytes)) = concat (map hexes (drop 33 bytes))"
    using drop_concat_hexes [of 33 bytes] by simp
  show "parseStealthMetaAddress (bytesToHex bytes)
        = Inr \<lparr>spendingPublicKey = bytesToHex (take 33 bytes),
               viewingPublicKey = bytesToHex (drop 33 bytes)\<rparr>"
    using len by (simp add: parseStealthMetaAddress_def slice_from_def slice_def bytesToHex_def t d Let_def)
next
  assume "length bytes \<noteq> 33 \<and> length bytes \<noteq> 66"
  then show "parseStealthMetaAddress (bytesToHex bytes) = Inl InvalidMetaAddressLength"
    by (simp add: parseStealthMetaAddress_def slice_from_def bytesToHex_def Let_def)
next
  assume "length (slice_from 2 metaAddress) \<noteq> 66 \<and> length (slice_from 2 metaAddress) \<noteq> 132"
  then show "parseStealthMetaAddress metaAddress = Inl InvalidMetaAddressLength"
    by (simp add: parseStealthMetaAddress_def Let_def)
qed

theorem parseStealthMetaAddress_lengths_witness:
  "parseStealthMetaAddress (bytesToHex (replicate 33 0xff))
     = Inr \<lparr>spendingPublicKey = bytesToHex (replicate 33 0xff),
            viewingPublicKey = bytesToHex (replicate 33 0xff)\<rparr>
 \<and> parseStealthMetaAddress (bytesToHex (replicate 33 0x02 @ replicate 33 0x03))
     = Inr \<lparr>spendingPublicKey = bytesToHex (replicate 33 0x02),
            viewingPublicKey = bytesToHex (replicate 33 0x03)\<rparr>
 \<and> parseStealthMetaAddress (bytesToHex [0x12, 0x34]) = Inl InvalidMetaAddressLength
 \<and> parseStealthMetaAddress ''0x1234'' = Inl InvalidMetaAddressLength"
  using parseStealthMetaAddress_lengths [of "replicate 33 0xff" "''0x1234''"]
    parseStealthMetaAddress_lengths [of "replicate 33 0x02 @ replicate 33 0x03" "''0x1234''"]
    parseStealthMetaAddress_lengths [of "[0x12, 0x34]" "''0x1234''"]
  by (simp add: slice_from_def)

lemma parse_create:
  assumes "take 2 (spendingPublicKey keys) = ''0x''" "length (spendingPublicKey keys) = 68"
      and "take 2 (viewingPublicKey keys) = ''0x''" "length (viewingPublicKey keys) = 68"
  shows "parseStealthMetaAddress (createStealthMetaAddress keys)
           = Inr \<lparr>spendingPublicKey = spendingPublicKey keys,
                  viewingPublicKey = viewingPublicKey keys\<rparr>"
proof -
  have s: "''0x'' @ drop 2 (spendingPublicKey keys) = spendingPublicKey keys"
    using assms(1) append_take_drop_id [of 2 "spendingPublicKey keys"] by simp
  have v: "''0x'' @ drop 2 (viewingPublicKey keys) = viewingPublicKey keys"
    using assms(3) append_take_drop_id [of 2 "viewingPublicKey keys"] by simp
  show ?thesis
    using assms(2,4) s v
    by (simp add: parseStealthMetaAddress_def createStealthMetaAddress_def slice_from_def slice_def Let_def)
qed

text \<open>
  Claim C6. A pair of public keys, each a hex string of \<open>0x\<close> and 66 digits (33 bytes),
  is read back from its meta-address exactly: \<open>parseStealthMetaAddress\<close> of
  \<open>createStealthMetaAddress\<close> returns the spending and the viewing public key.
\<close>

theorem meta_address_roundtrip:
  assumes "take 2 (spendingPublicKey keys) = ''0x''" "length (spendingPublicKey keys) = 68"
      and "take 2 (viewingPublicKey keys) = ''0x''" "length (viewingPublicKey keys) = 68"
  shows "parseStealthMetaAddress (createStealthMetaAddress keys)
           = Inr \<lparr>spendingPublicKey = spendingPublicKey keys,
                  viewingPublicKey = viewingPublicKey keys\<rparr>"
  using assms by (rule parse_create)

theorem meta_address_roundtrip_witness:
  "parseStealthMetaAddress (createStealthMetaAddress
      \<lparr>spendingPublicKey = ''0x021b84c5567b126440995d3ed5aaba0565d71e1834604819ff9c17f5e9d5dd078f'',
       viewingPublicKey = ''0x037c0f6b2d3a4e5f60718293a4b5c6d7e8f9011223344556677889900aabbccdde''\<rparr>)
     = Inr \<lparr>spendingPublicKey = ''0x021b84c5567b126440995d3ed5aaba0565d71e1834604819ff9c17f5e9d5dd078f'',
            viewingPublicKey = ''0x037c0f6b2d3a4e5f60718293a4b5c6d7e8f9011223344556677889900aabbccdde''\<rparr>"
  using meta_address_roundtrip
    [of "\<lparr>spendingPublicKey = ''0x021b84c5567b126440995d3ed5aaba0565d71e1834604819ff9c17f5e9d5dd078f'',
          viewingPublicKey = ''0x037c0f6b2d3a4e5f60718293a4b5c6d7e8f9011223344556677889900aabbccdde''\<rparr>"]
  by simp

text \<open>
  Claim C9, as the code has it. \<open>createAnnouncementMetadata\<close> puts the view tag first and
  the extra bytes, when there are any, right after it. \<open>extractViewTag\<close> returns the
  first byte of the metadata; it has no failure: of the empty metadata \<open>0x\<close> it returns
  the empty tag \<open>0x\<close>.
\<close>

theorem metadata_layout:
  "createAnnouncementMetadata (bytesToHex [t]) None = bytesToHex [t]
 \<and> createAnnouncementMetadata (bytesToHex [t]) (Some (bytesToHex extra)) = bytesToHex (t # extra)
 \<and> extractViewTag (bytesToHex (t # rest)) = bytesToHex [t]
 \<and> extractViewTag (bytesToHex []) = ''0x''"
  by (simp add: createAnnouncementMetadata_def extractViewTag_def bytesToHex_def slice_def Let_def
      slice_from_def hexes_def)

text \<open>
  The claim C9 says that \<open>extractViewTag\<close> fails on empty metadata. It returns.
\<close>

theorem extractViewTag_empty_metadata: "extractViewTag ''0x'' = ''0x''"
  by (simp add: extractViewTag_def slice_def)

section \<open>The view tag\<close>

lemma andThen_Inr_iff: "andThen r f = Inr y \<longleftrightarrow> (\<exists>x. r = Inr x \<and> f x = Inr y)"
  by (cases r) simp_all

lemma toPriv_Inr_iff:
  "toPriv p = Inr k \<longleftrightarrow> length p = 32 \<and> validScalar (bytesToNumber p) \<and> k = bytesToNumber p"
  by (auto simp: toPriv_def)

lemma toPriv_invalid: "\<not> validScalar (bytesToNumber p) \<Longrightarrow> toPriv p = Inl InvalidPrivateKey"
  by (simp add: toPriv_def)

lemma viewTag_of_digest:
  "''0x'' @ slice 2 4 (bytesToHex (b # rest)) = bytesToHex [b]"
  by (simp add: slice_def bytesToHex_def hexes_def)

lemma toLowerCase_tag_mismatch:
  assumes "keccak_256 L ss = b # rest" "hexToBytes announcedViewTag \<noteq> Inr [b]"
  shows "toLowerCase (''0x'' @ slice 2 4 (keccak256 L ss)) \<noteq> toLowerCase announcedViewTag"
proof
  assume eq: "toLowerCase (''0x'' @ slice 2 4 (keccak256 L ss)) = toLowerCase announcedViewTag"
  have "hexToBytes announcedViewTag = hexToBytes (toLowerCase announcedViewTag)"
    by (simp add: hexToBytes_toLowerCase)
  also have "\<dots> = hexToBytes (toLowerCase (bytesToHex [b]))"
    using eq assms(1) by (simp only: keccak256_def viewTag_of_digest)
  also have "\<dots> = Inr [b]"
    by (simp only: hexToBytes_toLowerCase hexToBytes_bytesToHex)
  finally show False using assms(2) by simp
qed

text \<open>
  Claim C3. Where the shared secret can be computed and the announced view tag is not
  the first byte \<open>b\<close> of its hash (it decodes to another byte, to no byte, or not at
  all), \<open>checkStealthAddress\<close> returns \<open>false\<close>. It does so before the long path: the
  result holds for every \<open>spendingPublicKey\<close>, also one that decodes to no point (where
  \<open>ProjectivePoint.fromHex\<close> would throw), for every announced address, and whatever
  \<open>pointAdd\<close>, \<open>fromHexString\<close> and \<open>publicKeyToAddress\<close> of the library are: none of
  them is called.
\<close>

theorem view_tag_short_circuit:
  assumes "hexToBytes viewingPrivateKey' = Inr viewingBytes"
      and "hexToBytes ephemeralPublicKey' = Inr ephemeralBytes"
      and "getSharedSecret L viewingBytes ephemeralBytes = Inr sharedSecret"
      and "keccak_256 L sharedSecret = b # rest"
      and "hexToBytes announcedViewTag \<noteq> Inr [b]"
    shows "checkStealthAddress L ephemeralPublicKey' spendingPublicKey' viewingPrivateKey'
             announcedAddress announcedViewTag = Inr False"
proof -
  have "toLowerCase (''0x'' @ slice 2 4 (keccak256 L sharedSecret)) \<noteq> toLowerCase announcedViewTag"
    using assms(4,5) by (rule toLowerCase_tag_mismatch)
  then show ?thesis
    using assms(1-3) by (simp add: checkStealthAddress_def Let_def)
qed

section \<open>Sender and receiver\<close>

lemma viewTag_take1: "CHR ''0'' # CHR ''x'' # slice 2 4 (bytesToHex d) = bytesToHex (take 1 d)"
  by (cases d) (simp_all add: slice_def bytesToHex_def hexes_def)

lemma getPublicKey_eq:
  "toPriv p = Inr k \<Longrightarrow> getPublicKey L p c = Inr (toRawBytes L (pointMultiply L (BASE L) k) c)"
  by (simp add: getPublicKey_def Point_fromPrivateKey_def)

lemma getPublicKey_Inr_D:
  "getPublicKey L p c = Inr pub \<Longrightarrow>
     \<exists>k. toPriv p = Inr k \<and> validScalar k \<and> pub = toRawBytes L (pointMultiply L (BASE L) k) c"
  by (auto simp: getPublicKey_def Point_fromPrivateKey_def andThen_Inr_iff toPriv_Inr_iff)

lemma Point_fromPrivateKey_Inr_iff:
  "Point_fromPrivateKey L d = Inr H \<longleftrightarrow>
     length d = 32 \<and> validScalar (bytesToNumber d) \<and> H = pointMultiply L (BASE L) (bytesToNumber d)"
  by (auto simp: Point_fromPrivateKey_def andThen_Inr_iff toPriv_Inr_iff)

lemma getSharedSecret_pub:
  assumes "curve_laws L" "validScalar a" "toPriv p = Inr k"
  shows "getSharedSecret L p (toRawBytes L (pointMultiply L (BASE L) a) c)
           = Inr (toRawBytes L (pointMultiply L (pointMultiply L (BASE L) a) k) True)"
proof -
  have "fromBytes L (toRawBytes L (pointMultiply L (BASE L) a) c) = Some (pointMultiply L (BASE L) a)"
    using assms(1,2) by (simp add: curve_laws_def)
  then show ?thesis using assms(3) by (simp add: getSharedSecret_def)
qed

lemma generateRandomKeys_Inr_D:
  assumes "generateRandomKeys L s v = Inr keys"
  shows "\<exists>ks kv. toPriv s = Inr ks \<and> validScalar ks \<and> toPriv v = Inr kv \<and> validScalar kv \<and>
           keys = \<lparr>spendingPublicKey = bytesToHex (toRawBytes L (pointMultiply L (BASE L) ks) True),
                   viewingPublicKey = bytesToHex (toRawBytes L (pointMultiply L (BASE L) kv) True),
                   spendingPrivateKey = bytesToHex s,
                   viewingPrivateKey = bytesToHex v\<rparr>"
proof -
  from assms obtain sp vp where sp: "getPublicKey L s True = Inr sp"
    and vp: "getPublicKey L v True = Inr vp"
    and k: "keys = \<lparr>spendingPublicKey = bytesToHex sp, viewingPublicKey = bytesToHex vp,
                     spendingPrivateKey = bytesToHex s, viewingPrivateKey = bytesToHex v\<rparr>"
    by (auto simp: generateRandomKeys_def andThen_Inr_iff)
  from getPublicKey_Inr_D [OF sp] getPublicKey_Inr_D [OF vp] k show ?thesis by blast
qed

lemma take2_bytesToHex: "take 2 (bytesToHex bs) = ''0x''"
  by (simp add: bytesToHex_def)

lemma generate_unfold:
  assumes "parseStealthMetaAddress meta = Inr pk"
      and "getPublicKey L e True = Inr E"
      and "hexToBytes (viewingPublicKey pk) = Inr vb"
      and "getSharedSecret L e vb = Inr ss"
  shows "generateStealthAddress L meta (Some e) fresh =
           andThen (Point_fromHex L (slice_from 2 (spendingPublicKey pk))) (\<lambda>S.
           andThen (Point_fromPrivateKey L (keccak_256 L ss)) (\<lambda>H.
           Inr \<lparr>stealthAddress =
                  publicKeyToAddress L (bytesToHex (toRawBytes L (pointAdd L S H) False)),
                ephemeralPublicKey = bytesToHex E,
                viewTag = bytesToHex (take 1 (keccak_256 L ss))\<rparr>))"
  using assms
  by (simp add: generateStealthAddress_def Let_def keccak256_def viewTag_take1)

lemma check_unfold:
  assumes "hexToBytes vp = Inr vb" "hexToBytes ep = Inr eb" "getSharedSecret L vb eb = Inr ss"
  shows "checkStealthAddress L ep sp vp addr tag =
           (if toLowerCase (bytesToHex (take 1 (keccak_256 L ss))) \<noteq> toLowerCase tag then Inr False
            else
              andThen (Point_fromHex L (slice_from 2 sp)) (\<lambda>S.
              andThen (Point_fromPrivateKey L (keccak_256 L ss)) (\<lambda>H.
              Inr (toLowerCase (publicKeyToAddress L (bytesToHex (toRawBytes L (pointAdd L S H) False)))
                     = toLowerCase addr))))"
  using assms
  by (simp add: checkStealthAddress_def Let_def keccak256_def viewTag_take1)

lemma compute_unfold:
  assumes "hexToBytes vp = Inr vb" "hexToBytes ep = Inr eb" "getSharedSecret L vb eb = Inr ss"
  shows "computeStealthPrivateKey L ep sp vp =
           andThen (BigInt sp) (\<lambda>s.
           andThen (BigInt (bytesToHex (keccak_256 L ss))) (\<lambda>h.
           Inr (''0x'' @ padStart 64 (CHR ''0'') (toString16 (bigint_rem (s + h) CURVE_ORDER)))))"
  using assms
  by (simp add: computeStealthPrivateKey_def Let_def keccak256_def)

lemma sender_receiver:
  assumes laws: "curve_laws L"
      and keys: "generateRandomKeys L s v = Inr keys"
      and gen: "generateStealthAddress L (createStealthMetaAddress keys) (Some e) fresh = Inr info"
  obtains ks kv ke ss S H where
    "toPriv s = Inr ks" "validScalar ks" "toPriv v = Inr kv" "validScalar kv"
    "toPriv e = Inr ke" "validScalar ke"
    "spendingPublicKey keys = bytesToHex (toRawBytes L (pointMultiply L (BASE L) ks) True)"
    "spendingPrivateKey keys = bytesToHex s"
    "viewingPrivateKey keys = bytesToHex v"
    "ephemeralPublicKey info = bytesToHex (toRawBytes L (pointMultiply L (BASE L) ke) True)"
    "getSharedSecret L v (toRawBytes L (pointMultiply L (BASE L) ke) True) = Inr ss"
    "Point_fromHex L (slice_from 2 (spendingPublicKey keys)) = Inr S"
    "Point_fromPrivateKey L (keccak_256 L ss) = Inr H"
    "stealthAddress info = publicKeyToAddress L (bytesToHex (toRawBytes L (pointAdd L S H) False))"
    "viewTag info = bytesToHex (take 1 (keccak_256 L ss))"
proof -
  from generateRandomKeys_Inr_D [OF keys] obtain ks kv where
    ks: "toPriv s = Inr ks" "validScalar ks" and kv: "toPriv v = Inr kv" "validScalar kv" and
    k: "keys = \<lparr>spendingPublicKey = bytesToHex (toRawBytes L (pointMultiply L (BASE L) ks) True),
                 viewingPublicKey = bytesToHex (toRawBytes L (pointMultiply L (BASE L) kv) True),
                 spendingPrivateKey = bytesToHex s,
                 viewingPrivateKey = bytesToHex v\<rparr>"
    by blast
  have parse: "parseStealthMetaAddress (createStealthMetaAddress keys)
      = Inr \<lparr>spendingPublicKey = bytesToHex (toRawBytes L (pointMultiply L (BASE L) ks) True),
             viewingPublicKey = bytesToHex (toRawBytes L (pointMultiply L (BASE L) kv) True)\<rparr>"
    unfolding k using laws by (simp add: parse_create take2_bytesToHex curve_laws_def)
  from gen parse obtain E where E: "getPublicKey L e True = Inr E"
    by (auto simp: generateStealthAddress_def andThen_Inr_iff Let_def)
  from getPublicKey_Inr_D [OF E] obtain ke where
    ke: "toPriv e = Inr ke" "validScalar ke"
    and E': "E = toRawBytes L (pointMultiply L (BASE L) ke) True"
    by blast
  define ss where "ss = toRawBytes L (pointMultiply L (pointMultiply L (BASE L) kv) ke) True"
  have sender: "getSharedSecret L e (toRawBytes L (pointMultiply L (BASE L) kv) True) = Inr ss"
    unfolding ss_def by (rule getSharedSecret_pub [OF laws kv(2) ke(1)])
  have dh: "pointMultiply L (pointMultiply L (BASE L) ke) kv
              = pointMultiply L (pointMultiply L (BASE L) kv) ke"
    using laws ke(2) kv(2) by (simp add: curve_laws_def)
  have receiver: "getSharedSecret L v (toRawBytes L (pointMultiply L (BASE L) ke) True) = Inr ss"
    unfolding ss_def dh [symmetric] by (rule getSharedSecret_pub [OF laws ke(2) kv(1)])
  have "generateStealthAddress L (createStealthMetaAddress keys) (Some e) fresh =
           andThen (Point_fromHex L (slice_from 2 (spendingPublicKey keys))) (\<lambda>S.
           andThen (Point_fromPrivateKey L (keccak_256 L ss)) (\<lambda>H.
           Inr \<lparr>stealthAddress =
                  publicKeyToAddress L (bytesToHex (toRawBytes L (pointAdd L S H) False)),
                ephemeralPublicKey = bytesToHex E,
                viewTag = bytesToHex (take 1 (keccak_256 L ss))\<rparr>))"
    using generate_unfold [OF parse E _ sender, of fresh] by (simp add: k)
  with gen obtain S H where
    S: "Point_fromHex L (slice_from 2 (spendingPublicKey keys)) = Inr S" and
    H: "Point_fromPrivateKey L (keccak_256 L ss) = Inr H" and
    i: "info = \<lparr>stealthAddress =
                  publicKeyToAddress L (bytesToHex (toRawBytes L (pointAdd L S H) False)),
                ephemeralPublicKey = bytesToHex E,
                viewTag = bytesToHex (take 1 (keccak_256 L ss))\<rparr>"
    by (auto simp: andThen_Inr_iff)
  show ?thesis
    by (rule that [OF ks kv ke _ _ _ _ receiver S H]) (simp_all add: k i E')
qed

text \<open>
  Claim C1. For every key pair made from two valid private keys and every ephemeral
  private key for which \<open>generateStealthAddress\<close> returns, what it returns for the pair's
  meta-address is recognised by \<open>checkStealthAddress\<close> with the pair's spending public
  key and viewing private key: the receiver's \<open>viewingPrivate * ephemeralPublic\<close> is the
  sender's \<open>ephemeralPrivate * viewingPublic\<close> (lemma \<open>sender_receiver\<close>), so tag and
  address are recomputed alike. (\<open>generateStealthAddress\<close> throws where the hash of the
  shared secret is no valid scalar.)
\<close>

theorem recognize_generated:
  assumes "curve_laws L"
      and "generateRandomKeys L s v = Inr keys"
      and "generateStealthAddress L (createStealthMetaAddress keys) (Some e) fresh = Inr info"
  shows "checkStealthAddress L (ephemeralPublicKey info) (spendingPublicKey keys)
           (viewingPrivateKey keys) (stealthAddress info) (viewTag info) = Inr True"
proof -
  from assms obtain ke ss S H where
    vp: "viewingPrivateKey keys = bytesToHex v" and
    ep: "ephemeralPublicKey info = bytesToHex (toRawBytes L (pointMultiply L (BASE L) ke) True)" and
    ss: "getSharedSecret L v (toRawBytes L (pointMultiply L (BASE L) ke) True) = Inr ss" and
    S: "Point_fromHex L (slice_from 2 (spendingPublicKey keys)) = Inr S" and
    H: "Point_fromPrivateKey L (keccak_256 L ss) = Inr H" and
    a: "stealthAddress info = publicKeyToAddress L (bytesToHex (toRawBytes L (pointAdd L S H) False))" and
    t: "viewTag info = bytesToHex (take 1 (keccak_256 L ss))"
    by (rule sender_receiver)
  show ?thesis
    unfolding vp ep
    by (subst check_unfold [OF hexToBytes_bytesToHex hexToBytes_bytesToHex ss])
       (simp add: S H a t)
qed

section \<open>The recovered private key\<close>

lemma bigint_rem_nonneg: "0 \<le> a \<Longrightarrow> 0 < b \<Longrightarrow> bigint_rem a b = a mod b"
  by (cases "a = 0") (simp_all add: bigint_rem_def)

lemma digitStep_None: "foldl (digitStep radix) None ds = None"
  by (induction ds) (simp_all add: digitStep_def)

lemma digitStep_nonneg:
  "0 \<le> a \<Longrightarrow> foldl (digitStep radix) (Some a) ds = Some v \<Longrightarrow> 0 \<le> v"
proof (induction ds arbitrary: a)
  case Nil
  then show ?case by simp
next
  case (Cons c ds)
  show ?case
  proof (cases "digitStep radix (Some a) c")
    case None
    with Cons.prems(2) show ?thesis by (simp add: digitStep_None)
  next
    case (Some a')
    then have "0 \<le> a'" using Cons.prems(1)
      by (auto simp: digitStep_def split: option.splits if_splits)
    moreover have "foldl (digitStep radix) (Some a') ds = Some v"
      using Cons.prems(2) Some by simp
    ultimately show ?thesis by (rule Cons.IH)
  qed
qed

lemma digitsValue_nonneg: "digitsValue radix ds = Inr v \<Longrightarrow> 0 \<le> v"
  using digitStep_nonneg [of 0 radix ds v]
  by (auto simp: digitsValue_def split: if_splits option.splits)

lemma trimString_0x:
  assumes "take 2 sp = ''0x''"
  shows "\<exists>t. trimString sp = ''0x'' @ t"
proof -
  from assms obtain rest where sp: "sp = CHR ''0'' # CHR ''x'' # rest"
    by (cases sp; cases "tl sp") auto
  have x: "\<not> isStrWhiteSpaceChar (CHR ''x'')" and z: "\<not> isStrWhiteSpaceChar (CHR ''0'')"
    by (simp_all add: isStrWhiteSpaceChar_def)
  have "dropWhile isStrWhiteSpaceChar sp = sp" using z by (simp add: sp)
  moreover have "rev sp = rev rest @ CHR ''x'' # [CHR ''0'']" by (simp add: sp)
  moreover have "dropWhile isStrWhiteSpaceChar (rev rest @ CHR ''x'' # [CHR ''0''])
                   = dropWhile isStrWhiteSpaceChar (rev rest) @ CHR ''x'' # [CHR ''0'']"
    using x by (rule dropWhile_append3)
  ultimately have "trimString sp = ''0x'' @ rev (dropWhile isStrWhiteSpaceChar (rev rest))"
    by (simp add: trimString_def)
  then show ?thesis ..
qed

lemma BigInt_0x_nonneg:
  assumes "take 2 sp = ''0x''" "BigInt sp = Inr s"
  shows "0 \<le> s"
proof -
  from trimString_0x [OF assms(1)] obtain t where t: "trimString sp = ''0x'' @ t" ..
  with assms(2) have "digitsValue 16 t = Inr s"
    by (simp add: BigInt_def)
  then show ?thesis by (rule digitsValue_nonneg)
qed

lemma BigInt_hex64:
  assumes "0 \<le> x" "x < 2 ^ 256"
  shows "BigInt (''0x'' @ padStart 64 (CHR ''0'') (toString16 x)) = Inr x"
proof -
  have "nat x < 256 ^ 32" using assms by (simp add: nat_less_iff)
  then have "bytesToNumber (numberToBytesBE 32 (nat x)) = int (nat x)"
    by (rule bytesToNumber_numberToBytesBE)
  moreover have "numberToBytesBE 32 (nat x) \<noteq> []"
    using length_numberToBytesBE [of 32 "nat x"] by (metis length_0_conv zero_neq_numeral)
  ultimately show ?thesis
    unfolding hex64_eq_bytesToHex [OF assms] using assms(1) by (simp add: BigInt_bytesToHex)
qed

lemma length_hex64:
  assumes "0 \<le> x" "x < 2 ^ 256"
  shows "length (''0x'' @ padStart 64 (CHR ''0'') (toString16 x)) = 66"
  unfolding hex64_eq_bytesToHex [OF assms] by simp

lemma digest_nonempty: "digest_laws L \<Longrightarrow> keccak_256 L ss \<noteq> []"
  by (metis digest_laws_def length_0_conv zero_neq_numeral)

lemma compute_value:
  assumes "hexToBytes vp = Inr vb" "hexToBytes ep = Inr eb" "getSharedSecret L vb eb = Inr ss"
      and "keccak_256 L ss \<noteq> []"
      and "BigInt sp = Inr s" "0 \<le> s"
  shows "computeStealthPrivateKey L ep sp vp
           = Inr (''0x'' @ padStart 64 (CHR ''0'')
                    (toString16 ((s + bytesToNumber (keccak_256 L ss)) mod CURVE_ORDER)))"
proof -
  have "0 \<le> s + bytesToNumber (keccak_256 L ss)"
    using assms(6) bytesToNumber_nonneg [of "keccak_256 L ss"] by simp
  then have "bigint_rem (s + bytesToNumber (keccak_256 L ss)) CURVE_ORDER
               = (s + bytesToNumber (keccak_256 L ss)) mod CURVE_ORDER"
    using CURVE_ORDER_pos by (rule bigint_rem_nonneg)
  then show ?thesis
    by (simp add: compute_unfold [OF assms(1-3)] assms(5) BigInt_bytesToHex [OF assms(4)])
qed

lemma mod_order_range:
  "0 \<le> x mod CURVE_ORDER" "x mod CURVE_ORDER < CURVE_ORDER" "x mod CURVE_ORDER < 2 ^ 256"
proof -
  show "0 \<le> x mod CURVE_ORDER" using CURVE_ORDER_pos by simp
  show b: "x mod CURVE_ORDER < CURVE_ORDER" using CURVE_ORDER_pos by simp
  show "x mod CURVE_ORDER < 2 ^ 256" using b CURVE_ORDER_lt by (rule less_trans)
qed

text \<open>
  Claim C4, as the code has it. Where the shared secret can be computed and the spending
  key is a hex string, \<open>computeStealthPrivateKey\<close> returns the scalar
  \<open>x = (spendingPrivate + hash) mod CURVE_ORDER\<close> as \<open>0x\<close> and 64 hex digits, with
  \<open>0 \<le> x < CURVE_ORDER\<close>: the sum wraps around the curve order. Nothing is validated
  after the sum, and no input is rejected for it: \<open>x = 0\<close> is returned like every other
  value (\<open>zero_key_returned\<close> below).
\<close>

theorem computeStealthPrivateKey_range:
  fixes L :: "'p crypto_lib"
  assumes "hexToBytes viewingPrivateKey' = Inr viewingBytes"
      and "hexToBytes ephemeralPublicKey' = Inr ephemeralBytes"
      and "getSharedSecret L viewingBytes ephemeralBytes = Inr sharedSecret"
      and "digest_laws L"
      and "take 2 spendingPrivateKey' = ''0x''"
      and "BigInt spendingPrivateKey' = Inr spendingBigInt"
  defines "x \<equiv> (spendingBigInt + bytesToNumber (keccak_256 L sharedSecret)) mod CURVE_ORDER"
  shows "computeStealthPrivateKey L ephemeralPublicKey' spendingPrivateKey' viewingPrivateKey'
           = Inr (''0x'' @ padStart 64 (CHR ''0'') (toString16 x))
       \<and> BigInt (''0x'' @ padStart 64 (CHR ''0'') (toString16 x)) = Inr x
       \<and> length (''0x'' @ padStart 64 (CHR ''0'') (toString16 x)) = 66
       \<and> 0 \<le> x \<and> x < CURVE_ORDER"
proof -
  have s: "0 \<le> spendingBigInt" using assms(5,6) by (rule BigInt_0x_nonneg)
  have r: "0 \<le> x" "x < CURVE_ORDER" "x < 2 ^ 256"
    unfolding x_def by (rule mod_order_range)+
  show ?thesis
    using compute_value [OF assms(1-3) digest_nonempty [OF assms(4)] assms(6) s]
      BigInt_hex64 [OF r(1,3)] length_hex64 [OF r(1,3)] r(1,2)
    unfolding x_def by simp
qed

section \<open>Hashes that are no scalar\<close>

lemma Point_fromPrivateKey_invalid:
  "\<not> validScalar (bytesToNumber d) \<Longrightarrow> Point_fromPrivateKey L d = Inl InvalidPrivateKey"
  by (simp add: Point_fromPrivateKey_def toPriv_def)

lemma tail_invalid:
  assumes "\<not> validScalar (bytesToNumber d)"
  shows "andThen (Point_fromHex L hex) (\<lambda>S. andThen (Point_fromPrivateKey L d) (f S))
           = Inl (if fromHexString L hex = None then PointInvalid else InvalidPrivateKey)"
  by (cases "fromHexString L hex")
     (simp_all add: Point_fromHex_def Point_fromPrivateKey_invalid [OF assms])

text \<open>
  Claim C10. \<open>generateStealthAddress\<close> and \<open>checkStealthAddress\<close> give the hash of the
  shared secret to \<open>ProjectivePoint.fromPrivateKey\<close>, which refuses a number that is zero or
  not below the order of the curve: both throw. \<open>computeStealthPrivateKey\<close> reads the same
  hash with \<open>BigInt\<close> and reduces the sum modulo the order: it returns a key.
\<close>

theorem hash_out_of_range:
  fixes L :: "'p crypto_lib"
  assumes "digest_laws L"
      and "\<not> validScalar (bytesToNumber (keccak_256 L sharedSecret))"
      and "parseStealthMetaAddress recipientMetaAddress = Inr keys"
      and "getPublicKey L ephemeralPrivateKey True = Inr ephPubKey"
      and "hexToBytes (viewingPublicKey keys) = Inr viewingPublicBytes"
      and "getSharedSecret L ephemeralPrivateKey viewingPublicBytes = Inr sharedSecret"
      and "hexToBytes viewingPrivateKey' = Inr viewingBytes"
      and "hexToBytes ephemeralPublicKey' = Inr ephemeralBytes"
      and "getSharedSecret L viewingBytes ephemeralBytes = Inr sharedSecret"
      and "toLowerCase (''0x'' @ slice 2 4 (keccak256 L sharedSecret)) = toLowerCase announcedViewTag"
      and "take 2 spendingPrivateKey' = ''0x''"
      and "BigInt spendingPrivateKey' = Inr spendingBigInt"
  shows "generateStealthAddress L recipientMetaAddress (Some ephemeralPrivateKey) fresh
           = Inl (if fromHexString L (slice_from 2 (spendingPublicKey keys)) = None
                  then PointInvalid else InvalidPrivateKey)
       \<and> checkStealthAddress L ephemeralPublicKey' spendingPublicKey' viewingPrivateKey'
             announcedAddress announcedViewTag
           = Inl (if fromHexString L (slice_from 2 spendingPublicKey') = None
                  then PointInvalid else InvalidPrivateKey)
       \<and> computeStealthPrivateKey L ephemeralPublicKey' spendingPrivateKey' viewingPrivateKey'
           = Inr (''0x'' @ padStart 64 (CHR ''0'')
                   (toString16 ((spendingBigInt + bytesToNumber (keccak_256 L sharedSecret))
                                  mod CURVE_ORDER)))"
proof (intro conjI)
  show "generateStealthAddress L recipientMetaAddress (Some ephemeralPrivateKey) fresh
           = Inl (if fromHexString L (slice_from 2 (spendingPublicKey keys)) = None
                  then PointInvalid else InvalidPrivateKey)"
    unfolding generate_unfold [OF assms(3-6)] by (rule tail_invalid [OF assms(2)])
next
  have tag: "toLowerCase (bytesToHex (take 1 (keccak_256 L sharedSecret))) = toLowerCase announcedViewTag"
    using assms(10) by (simp add: keccak256_def viewTag_take1)
  show "checkStealthAddress L ephemeralPublicKey' spendingPublicKey' viewingPrivateKey'
             announcedAddress announcedViewTag
           = Inl (if fromHexString L (slice_from 2 spendingPublicKey') = None
                  then PointInvalid else InvalidPrivateKey)"
    unfolding check_unfold [OF assms(7-9)] tail_invalid [OF assms(2)] using tag
    by simp
next
  have "0 \<le> spendingBigInt" using assms(11,12) by (rule BigInt_0x_nonneg)
  then show "computeStealthPrivateKey L ephemeralPublicKey' spendingPrivateKey' viewingPrivateKey'
           = Inr (''0x'' @ padStart 64 (CHR ''0'')
                   (toString16 ((spendingBigInt + bytesToNumber (keccak_256 L sharedSecret))
                                  mod CURVE_ORDER)))"
    by (rule compute_value [OF assms(7-9) digest_nonempty [OF assms(1)] assms(12)])
qed

lemma toPriv_numberToBytesBE:
  assumes "validScalar x"
  shows "toPriv (numberToBytesBE 32 (nat x)) = Inr x"
proof -
  have "bytesToNumber (numberToBytesBE 32 (nat x)) = int (nat x)"
    using validScalar_nat_bound [OF assms] by (rule bytesToNumber_numberToBytesBE)
  then show ?thesis using assms by (simp add: toPriv_def validScalar_def)
qed

lemma toPriv_zero: "toPriv (numberToBytesBE 32 0) = Inl InvalidPrivateKey"
  using bytesToNumber_numberToBytesBE [of 0 32] by (simp add: toPriv_def validScalar_def)

lemma privateKeyToAddress_hex64:
  assumes "0 \<le> x" "x < 2 ^ 256"
  shows "privateKeyToAddress L (''0x'' @ padStart 64 (CHR ''0'') (toString16 x))
           = andThen (getPublicKey L (numberToBytesBE 32 (nat x)) False) (\<lambda>publicKey.
               Inr (publicKeyToAddress L (bytesToHex publicKey)))"
proof -
  have "length (''0x'' @ padStart 64 (CHR ''0'') (toString16 x)) = 66"
    using assms by (rule length_hex64)
  then have "length (slice_from 2 (''0x'' @ padStart 64 (CHR ''0'') (toString16 x))) = 64"
    by (simp add: slice_from_def)
  moreover have "hexToBytes (''0x'' @ padStart 64 (CHR ''0'') (toString16 x))
                   = Inr (numberToBytesBE 32 (nat x))"
    unfolding hex64_eq_bytesToHex [OF assms] by simp
  ultimately show ?thesis
    unfolding privateKeyToAddress_def by simp
qed

text \<open>
  Claim C2. For a valid key pair and a valid ephemeral key, when the sender has generated a
  stealth address, \<open>computeStealthPrivateKey\<close> returns the scalar
  \<open>x = (spendingPrivate + hash) mod n\<close>, \<open>hash\<close> the digest of the receiver's shared
  secret, as \<open>0x\<close> and 64 hex digits. When \<open>x\<close> is not zero, the account address of its
  public key is the generated address: \<open>x\<close> generates the point
  \<open>spendingPublic + hash * G\<close>. When \<open>x\<close> is zero it is no private key: deriving its public
  key throws.
\<close>

theorem recovered_key_address:
  assumes "curve_laws L"
      and "generateRandomKeys L s v = Inr keys"
      and "generateStealthAddress L (createStealthMetaAddress keys) (Some e) fresh = Inr info"
  shows "\<exists>ephemeralBytes sharedSecret x.
           hexToBytes (ephemeralPublicKey info) = Inr ephemeralBytes
         \<and> getSharedSecret L v ephemeralBytes = Inr sharedSecret
         \<and> x = (bytesToNumber s + bytesToNumber (keccak_256 L sharedSecret)) mod CURVE_ORDER
         \<and> computeStealthPrivateKey L (ephemeralPublicKey info) (spendingPrivateKey keys)
              (viewingPrivateKey keys)
             = Inr (''0x'' @ padStart 64 (CHR ''0'') (toString16 x))
         \<and> privateKeyToAddress L (''0x'' @ padStart 64 (CHR ''0'') (toString16 x))
             = (if x = 0 then Inl InvalidPrivateKey else Inr (stealthAddress info))"
proof -
  from assms obtain ks ke ss S H where
    ks: "toPriv s = Inr ks" "validScalar ks" and
    spub: "spendingPublicKey keys = bytesToHex (toRawBytes L (pointMultiply L (BASE L) ks) True)" and
    sp: "spendingPrivateKey keys = bytesToHex s" and
    vp: "viewingPrivateKey keys = bytesToHex v" and
    ep: "ephemeralPublicKey info = bytesToHex (toRawBytes L (pointMultiply L (BASE L) ke) True)" and
    ss: "getSharedSecret L v (toRawBytes L (pointMultiply L (BASE L) ke) True) = Inr ss" and
    S: "Point_fromHex L (slice_from 2 (spendingPublicKey keys)) = Inr S" and
    H: "Point_fromPrivateKey L (keccak_256 L ss) = Inr H" and
    a: "stealthAddress info = publicKeyToAddress L (bytesToHex (toRawBytes L (pointAdd L S H) False))"
    by (rule sender_receiver)
  define h where "h = bytesToNumber (keccak_256 L ss)"
  define x where "x = (bytesToNumber s + h) mod CURVE_ORDER"
  define k where "k = ''0x'' @ padStart 64 (CHR ''0'') (toString16 x)"
  from H have hlen: "length (keccak_256 L ss) = 32" and hv: "validScalar h"
    and H': "H = pointMultiply L (BASE L) h"
    by (simp_all add: Point_fromPrivateKey_Inr_iff h_def)
  from ks(1) have slen: "length s = 32" and ksn: "ks = bytesToNumber s"
    by (simp_all add: toPriv_Inr_iff)
  have sne: "s \<noteq> []" and dne: "keccak_256 L ss \<noteq> []" using slen hlen by auto
  have S': "S = pointMultiply L (BASE L) ks"
    using S assms(1) ks(2) by (simp add: spub Point_fromHex_def curve_laws_def)
  have eb: "hexToBytes (ephemeralPublicKey info)
              = Inr (toRawBytes L (pointMultiply L (BASE L) ke) True)"
    unfolding ep by (rule hexToBytes_bytesToHex)
  have comp: "computeStealthPrivateKey L (ephemeralPublicKey info) (spendingPrivateKey keys)
                (viewingPrivateKey keys) = Inr k"
    unfolding sp vp ep k_def x_def h_def
    using ks(2) by (intro compute_value [OF hexToBytes_bytesToHex hexToBytes_bytesToHex ss dne])
                   (simp_all add: BigInt_bytesToHex [OF sne] ksn validScalar_def)
  have r: "0 \<le> x" "x < CURVE_ORDER" "x < 2 ^ 256"
    unfolding x_def by (rule mod_order_range)+
  have addr: "privateKeyToAddress L k
                = andThen (getPublicKey L (numberToBytesBE 32 (nat x)) False) (\<lambda>publicKey.
                    Inr (publicKeyToAddress L (bytesToHex publicKey)))"
    unfolding k_def using r(1,3) by (rule privateKeyToAddress_hex64)
  have nonzero: "privateKeyToAddress L k = Inr (stealthAddress info)" if "x \<noteq> 0"
  proof -
    have xv: "validScalar x" using that r by (simp add: validScalar_def)
    have "getPublicKey L (numberToBytesBE 32 (nat x)) False
            = Inr (toRawBytes L (pointMultiply L (BASE L) x) False)"
      by (rule getPublicKey_eq [OF toPriv_numberToBytesBE [OF xv]])
    moreover have "pointMultiply L (BASE L) x = pointAdd L S H"
      using assms(1) ks(2) hv xv unfolding S' H' x_def ksn [symmetric]
      by (simp add: curve_laws_def)
    ultimately show ?thesis by (simp add: addr a)
  qed
  have zero: "privateKeyToAddress L k = Inl InvalidPrivateKey" if "x = 0"
    unfolding addr using that
    by (simp add: getPublicKey_def Point_fromPrivateKey_def toPriv_zero)
  have "privateKeyToAddress L k = (if x = 0 then Inl InvalidPrivateKey else Inr (stealthAddress info))"
    using nonzero zero by simp
  with eb ss comp show ?thesis
    unfolding k_def x_def h_def by blast
qed

section \<open>Running the wallet on the library of discrete logarithms\<close>

lemma numberToBytesBE_numeral:
  "numberToBytesBE (numeral k) x = numberToBytesBE (pred_numeral k) (x div 256) @ [of_nat (x mod 256)]"
  unfolding numeral_eq_Suc [of k] by simp

lemmas bytes_eval = numberToBytesBE_numeral bytesToNumber_def

lemmas hex_eval = bytesToHex_def hexes_def hexDigit_def

lemma spendingKey0_bytes:
  "spendingKey0 = [27, 132, 197, 86, 123, 18, 100, 64, 153, 93, 62, 213, 170, 186, 5, 101,
     215, 30, 24, 52, 96, 72, 25, 255, 156, 23, 245, 233, 213, 221, 7, 143]"
  by (simp add: spendingKey0_def bytes_eval)

lemma viewingKey0_bytes:
  "viewingKey0 = [0, 0, 124, 15, 107, 45, 58, 78, 95, 96, 113, 130, 147, 164, 181, 198,
     215, 232, 249, 1, 18, 35, 52, 69, 86, 103, 120, 137, 144, 10, 171, 188]"
  by (simp add: viewingKey0_def bytes_eval)

lemma ephemeralKey0_bytes:
  "ephemeralKey0 = [0, 0, 0, 0, 0, 0, 0, 0, 0, 0, 0, 0, 0, 0, 0, 0,
     0, 0, 0, 0, 0, 0, 0, 0, 0, 0, 0, 0, 0, 0, 154, 63]"
  by (simp add: ephemeralKey0_def bytes_eval)

lemma sharedPoint0_bytes:
  "sharedPoint0 = [2, 74, 191, 206, 68, 149, 52, 126, 169, 125, 4, 123, 243, 106, 226, 89, 209,
     72, 31, 236, 44, 164, 27, 147, 10, 129, 249, 106, 128, 221, 239, 91, 68]"
  by (simp add: sharedPoint0_def bytes_eval)

lemma toPriv_spendingKey0:
  "toPriv spendingKey0 = Inr 0x1b84c5567b126440995d3ed5aaba0565d71e1834604819ff9c17f5e9d5dd078f"
  unfolding spendingKey0_def
  using toPriv_numberToBytesBE [of "0x1b84c5567b126440995d3ed5aaba0565d71e1834604819ff9c17f5e9d5dd078f"]
  by (simp add: validScalar_def CURVE_ORDER_def)

lemma toPriv_viewingKey0:
  "toPriv viewingKey0 = Inr 0x7c0f6b2d3a4e5f60718293a4b5c6d7e8f9011223344556677889900aabbc"
  unfolding viewingKey0_def
  using toPriv_numberToBytesBE [of "0x7c0f6b2d3a4e5f60718293a4b5c6d7e8f9011223344556677889900aabbc"]
  by (simp add: validScalar_def CURVE_ORDER_def)

lemma toPriv_ephemeralKey0:
  "toPriv ephemeralKey0 = Inr 0x9a3f"
  unfolding ephemeralKey0_def
  using toPriv_numberToBytesBE [of "0x9a3f"]
  by (simp add: validScalar_def CURVE_ORDER_def)

lemma getPublicKey_logLib:
  "toPriv p = Inr k \<Longrightarrow> getPublicKey logLib p True = Inr (2 # numberToBytesBE 32 (nat (k mod CURVE_ORDER)))"
  by (simp add: getPublicKey_eq logLib_def)

lemma getPublicKey_spendingKey0: "getPublicKey logLib spendingKey0 True = Inr (2 # spendingKey0)"
  unfolding getPublicKey_logLib [OF toPriv_spendingKey0] by (simp add: CURVE_ORDER_def spendingKey0_def)

lemma getPublicKey_viewingKey0: "getPublicKey logLib viewingKey0 True = Inr (2 # viewingKey0)"
  unfolding getPublicKey_logLib [OF toPriv_viewingKey0] by (simp add: CURVE_ORDER_def viewingKey0_def)

lemma getPublicKey_ephemeralKey0: "getPublicKey logLib ephemeralKey0 True = Inr (2 # ephemeralKey0)"
  unfolding getPublicKey_logLib [OF toPriv_ephemeralKey0] by (simp add: CURVE_ORDER_def ephemeralKey0_def)

lemma hex_spendingKey0: "bytesToHex spendingKey0 = spendingPrivateKey keys0"
  by (simp add: spendingKey0_bytes keys0_def hex_eval)

lemma hex_viewingKey0: "bytesToHex viewingKey0 = viewingPrivateKey keys0"
  by (simp add: viewingKey0_bytes keys0_def hex_eval)

lemma hex_spendingPublic0: "bytesToHex (2 # spendingKey0) = spendingPublicKey keys0"
  by (simp add: spendingKey0_bytes keys0_def hex_eval)

lemma hex_viewingPublic0: "bytesToHex (2 # viewingKey0) = viewingPublicKey keys0"
  by (simp add: viewingKey0_bytes keys0_def hex_eval)

lemma hex_ephemeralPublic0: "bytesToHex (2 # ephemeralKey0) = ephemeralPublicKey payment0"
  by (simp add: ephemeralKey0_bytes payment0_def hex_eval)

lemma generateRandomKeys_keys0: "generateRandomKeys logLib spendingKey0 viewingKey0 = Inr keys0"
  unfolding generateRandomKeys_def getPublicKey_spendingKey0 getPublicKey_viewingKey0
  by (simp add: hex_spendingKey0 hex_viewingKey0 hex_spendingPublic0 hex_viewingPublic0 keys0_def)

lemma logFromBytes_viewingPublic0:
  "logFromBytes (2 # viewingKey0) = Some 0x7c0f6b2d3a4e5f60718293a4b5c6d7e8f9011223344556677889900aabbc"
  unfolding viewingKey0_def
  using logFromBytes_compressed [of "0x7c0f6b2d3a4e5f60718293a4b5c6d7e8f9011223344556677889900aabbc"]
  by (simp add: validScalar_def CURVE_ORDER_def)

lemma logFromBytes_ephemeralPublic0:
  "logFromBytes (2 # ephemeralKey0) = Some 0x9a3f"
  unfolding ephemeralKey0_def
  using logFromBytes_compressed [of "0x9a3f"]
  by (simp add: validScalar_def CURVE_ORDER_def)

lemma logFromBytes_spendingPublic0:
  "logFromBytes (2 # spendingKey0) = Some 0x1b84c5567b126440995d3ed5aaba0565d71e1834604819ff9c17f5e9d5dd078f"
  unfolding spendingKey0_def
  using logFromBytes_compressed [of "0x1b84c5567b126440995d3ed5aaba0565d71e1834604819ff9c17f5e9d5dd078f"]
  by (simp add: validScalar_def CURVE_ORDER_def)

lemma sender_secret0: "getSharedSecret logLib ephemeralKey0 (2 # viewingKey0) = Inr sharedPoint0"
  by (simp add: getSharedSecret_def logLib_def logFromBytes_viewingPublic0 toPriv_ephemeralKey0
      CURVE_ORDER_def sharedPoint0_def)

lemma receiver_secret0: "getSharedSecret logLib viewingKey0 (2 # ephemeralKey0) = Inr sharedPoint0"
  by (simp add: getSharedSecret_def logLib_def logFromBytes_ephemeralPublic0 toPriv_viewingKey0
      CURVE_ORDER_def sharedPoint0_def)

lemma d1: "bytesToNumber sharedPoint0 = 0x024abfce4495347ea97d047bf36ae259d1481fec2ca41b930a81f96a80ddef5b44"
  by (simp add: sharedPoint0_bytes bytesToNumber_def)

lemma d2: "numberToBytesBE 32 0x024abfce4495347ea97d047bf36ae259d1481fec2ca41b930a81f96a80ddef5b44 = tl sharedPoint0"
  by (simp add: sharedPoint0_bytes numberToBytesBE_numeral)

lemma digest0: "keccak_256 logLib sharedPoint0 = tl sharedPoint0"
  by (simp add: logLib_def d1 d2)

lemma parse_keys0:
  "parseStealthMetaAddress (createStealthMetaAddress keys0)
     = Inr \<lparr>spendingPublicKey = spendingPublicKey keys0, viewingPublicKey = viewingPublicKey keys0\<rparr>"
  by (rule parse_create) (simp_all add: keys0_def)

lemma hexToBytes_viewingPublic0: "hexToBytes (viewingPublicKey keys0) = Inr (2 # viewingKey0)"
  unfolding hex_viewingPublic0 [symmetric] by (rule hexToBytes_bytesToHex)

lemma spendingPoint0:
  "Point_fromHex logLib (slice_from 2 (spendingPublicKey keys0))
     = Inr 0x1b84c5567b126440995d3ed5aaba0565d71e1834604819ff9c17f5e9d5dd078f"
  unfolding hex_spendingPublic0 [symmetric]
  by (simp add: Point_fromHex_def logLib_def slice_from_bytesToHex logFromBytes_spendingPublic0)

lemma hashedSecretPoint0:
  "Point_fromPrivateKey logLib (keccak_256 logLib sharedPoint0)
     = Inr 0x4abfce4495347ea97d047bf36ae259d1481fec2ca41b930a81f96a80ddef5b44"
proof -
  have "toPriv (tl sharedPoint0) = Inr 0x4abfce4495347ea97d047bf36ae259d1481fec2ca41b930a81f96a80ddef5b44"
    unfolding sharedPoint0_def
    using toPriv_numberToBytesBE [of "0x4abfce4495347ea97d047bf36ae259d1481fec2ca41b930a81f96a80ddef5b44"]
    by (simp add: validScalar_def CURVE_ORDER_def)
  then show ?thesis
    unfolding digest0 Point_fromPrivateKey_def by (simp add: logLib_def CURVE_ORDER_def)
qed

lemma stealthPoint0_bytes:
  "stealthPoint0 = [102, 68, 147, 155, 16, 70, 226, 234, 22, 97, 186, 201, 21, 156, 95, 55,
     31, 62, 4, 97, 4, 99, 173, 10, 30, 17, 96, 106, 179, 204, 98, 211]"
  by (simp add: stealthPoint0_def bytes_eval)

lemma stealthPublicKey0:
  "toRawBytes logLib
     (pointAdd logLib 0x1b84c5567b126440995d3ed5aaba0565d71e1834604819ff9c17f5e9d5dd078f
        0x4abfce4495347ea97d047bf36ae259d1481fec2ca41b930a81f96a80ddef5b44) False
     = 4 # stealthPoint0 @ stealthPoint0"
  by (simp add: logLib_def CURVE_ORDER_def stealthPoint0_def)

lemma stealthAddress0:
  "publicKeyToAddress logLib (bytesToHex (4 # stealthPoint0 @ stealthPoint0))
     = ''0x159c5f371f3e04610463ad0a1e11606ab3cc62d3''"
  by (simp add: logLib_def stealthPoint0_bytes hex_eval)

lemma viewTag0: "bytesToHex (take (Suc 0) (keccak_256 logLib sharedPoint0)) = ''0x4a''"
  unfolding digest0 by (simp add: sharedPoint0_bytes hex_eval)

lemma generate_payment0:
  "generateStealthAddress logLib (createStealthMetaAddress keys0) (Some ephemeralKey0) fresh
     = Inr payment0"
proof -
  have v: "hexToBytes (viewingPublicKey
             \<lparr>spendingPublicKey = spendingPublicKey keys0, viewingPublicKey = viewingPublicKey keys0\<rparr>)
             = Inr (2 # viewingKey0)"
    by (simp add: hexToBytes_viewingPublic0)
  show ?thesis
    unfolding generate_unfold [OF parse_keys0 getPublicKey_ephemeralKey0 v sender_secret0]
    by (simp add: spendingPoint0 hashedSecretPoint0 stealthPublicKey0 stealthAddress0 viewTag0
        hex_ephemeralPublic0 payment0_def)
qed

theorem recognize_generated_witness:
  "curve_laws logLib
 \<and> generateRandomKeys logLib spendingKey0 viewingKey0 = Inr keys0
 \<and> generateStealthAddress logLib (createStealthMetaAddress keys0) (Some ephemeralKey0) [] = Inr payment0
 \<and> checkStealthAddress logLib (ephemeralPublicKey payment0) (spendingPublicKey keys0)
       (viewingPrivateKey keys0) (stealthAddress payment0) (viewTag payment0) = Inr True"
  using recognize_generated [OF curve_laws_logLib generateRandomKeys_keys0 generate_payment0]
    curve_laws_logLib generateRandomKeys_keys0 generate_payment0
  by simp

lemma hexToBytes_viewingPrivate0: "hexToBytes (viewingPrivateKey keys0) = Inr viewingKey0"
  unfolding hex_viewingKey0 [symmetric] by (rule hexToBytes_bytesToHex)

lemma hexToBytes_ephemeralPublic0: "hexToBytes (ephemeralPublicKey payment0) = Inr (2 # ephemeralKey0)"
  unfolding hex_ephemeralPublic0 [symmetric] by (rule hexToBytes_bytesToHex)

lemma digest0_bytes:
  "keccak_256 logLib sharedPoint0 = 0x4a # [191, 206, 68, 149, 52, 126, 169, 125, 4, 123, 243, 106,
     226, 89, 209, 72, 31, 236, 44, 164, 27, 147, 10, 129, 249, 106, 128, 221, 239, 91, 68]"
  unfolding digest0 by (simp add: sharedPoint0_bytes)

lemma hexToBytes_4b: "hexToBytes ''0x4b'' = Inr [0x4b]"
  by (simp add: hexToBytes_def slice_from_def charCodeToBase16_def)

theorem view_tag_short_circuit_witness:
  "hexToBytes (viewingPrivateKey keys0) = Inr viewingKey0
 \<and> hexToBytes (ephemeralPublicKey payment0) = Inr (2 # ephemeralKey0)
 \<and> getSharedSecret logLib viewingKey0 (2 # ephemeralKey0) = Inr sharedPoint0
 \<and> hd (keccak_256 logLib sharedPoint0) = 0x4a
 \<and> hexToBytes ''0x4b'' = Inr [0x4b]
 \<and> fromHexString logLib ''zz'' = None
 \<and> checkStealthAddress logLib (ephemeralPublicKey payment0) ''0xzz'' (viewingPrivateKey keys0)
       (stealthAddress payment0) ''0x4b'' = Inr False"
proof -
  have ne: "hexToBytes ''0x4b'' \<noteq> Inr [0x4a]" by (simp add: hexToBytes_4b)
  have z: "fromHexString logLib ''zz'' = None"
    by (simp add: logLib_def hexToBytes_def slice_from_def charCodeToBase16_def)
  show ?thesis
    using view_tag_short_circuit [OF hexToBytes_viewingPrivate0 hexToBytes_ephemeralPublic0
        receiver_secret0 digest0_bytes ne, of "''0xzz''" "stealthAddress payment0"]
      hexToBytes_viewingPrivate0 hexToBytes_ephemeralPublic0 receiver_secret0 hexToBytes_4b z
    by (simp add: digest0_bytes)
qed

lemma bytesToNumber_spendingKey0:
  "bytesToNumber spendingKey0 = 0x1b84c5567b126440995d3ed5aaba0565d71e1834604819ff9c17f5e9d5dd078f"
  using toPriv_spendingKey0 by (simp add: toPriv_Inr_iff)

lemma BigInt_spendingPrivate0:
  "BigInt (spendingPrivateKey keys0) = Inr 0x1b84c5567b126440995d3ed5aaba0565d71e1834604819ff9c17f5e9d5dd078f"
proof -
  have "spendingKey0 \<noteq> []" by (simp add: spendingKey0_bytes)
  then show ?thesis
    unfolding hex_spendingKey0 [symmetric] by (simp add: BigInt_bytesToHex bytesToNumber_spendingKey0)
qed

lemma digest0_number:
  "bytesToNumber (keccak_256 logLib sharedPoint0)
     = 0x4abfce4495347ea97d047bf36ae259d1481fec2ca41b930a81f96a80ddef5b44"
  unfolding digest0 unfolding sharedPoint0_def
  using bytesToNumber_numberToBytesBE [of "0x4abfce4495347ea97d047bf36ae259d1481fec2ca41b930a81f96a80ddef5b44" 32]
  by simp

lemma digest0_nonempty: "keccak_256 logLib sharedPoint0 \<noteq> []"
  by (simp add: digest0_bytes)

lemma hex_stealthPoint0: "bytesToHex stealthPoint0 = recoveredKey0"
  by (simp add: stealthPoint0_bytes recoveredKey0_def hex_eval)

lemma recoveredKey0_padded:
  "''0x'' @ padStart 64 (CHR ''0'')
      (toString16 0x6644939b1046e2ea1661bac9159c5f371f3e04610463ad0a1e11606ab3cc62d3) = recoveredKey0"
  using hex64_eq_bytesToHex [of "0x6644939b1046e2ea1661bac9159c5f371f3e04610463ad0a1e11606ab3cc62d3"]
  by (simp add: stealthPoint0_def [symmetric] hex_stealthPoint0)

lemma compute_keys0:
  "computeStealthPrivateKey logLib (ephemeralPublicKey payment0) (spendingPrivateKey keys0)
     (viewingPrivateKey keys0) = Inr recoveredKey0"
proof -
  have "(0x1b84c5567b126440995d3ed5aaba0565d71e1834604819ff9c17f5e9d5dd078f
          + bytesToNumber (keccak_256 logLib sharedPoint0)) mod CURVE_ORDER
        = 0x6644939b1046e2ea1661bac9159c5f371f3e04610463ad0a1e11606ab3cc62d3"
    unfolding digest0_number by (simp add: CURVE_ORDER_def)
  then show ?thesis
    using compute_value [OF hexToBytes_viewingPrivate0 hexToBytes_ephemeralPublic0 receiver_secret0
        digest0_nonempty BigInt_spendingPrivate0]
    by (simp only: recoveredKey0_padded)
qed

theorem computeStealthPrivateKey_range_witness:
  "hexToBytes (viewingPrivateKey keys0) = Inr viewingKey0
 \<and> hexToBytes (ephemeralPublicKey payment0) = Inr (2 # ephemeralKey0)
 \<and> getSharedSecret logLib viewingKey0 (2 # ephemeralKey0) = Inr sharedPoint0
 \<and> digest_laws logLib
 \<and> take 2 (spendingPrivateKey keys0) = ''0x''
 \<and> BigInt (spendingPrivateKey keys0)
       = Inr 0x1b84c5567b126440995d3ed5aaba0565d71e1834604819ff9c17f5e9d5dd078f
 \<and> computeStealthPrivateKey logLib (ephemeralPublicKey payment0) (spendingPrivateKey keys0)
       (viewingPrivateKey keys0) = Inr recoveredKey0
 \<and> BigInt recoveredKey0 = Inr 0x6644939b1046e2ea1661bac9159c5f371f3e04610463ad0a1e11606ab3cc62d3
 \<and> length recoveredKey0 = 66"
proof -
  have t: "take 2 (spendingPrivateKey keys0) = ''0x''" by (simp add: keys0_def)
  have x: "(0x1b84c5567b126440995d3ed5aaba0565d71e1834604819ff9c17f5e9d5dd078f
          + bytesToNumber (keccak_256 logLib sharedPoint0)) mod CURVE_ORDER
        = 0x6644939b1046e2ea1661bac9159c5f371f3e04610463ad0a1e11606ab3cc62d3"
    unfolding digest0_number by (simp add: CURVE_ORDER_def)
  show ?thesis
    using computeStealthPrivateKey_range [OF hexToBytes_viewingPrivate0 hexToBytes_ephemeralPublic0
        receiver_secret0 digest_laws_logLib t BigInt_spendingPrivate0]
      hexToBytes_viewingPrivate0 hexToBytes_ephemeralPublic0 receiver_secret0 digest_laws_logLib t
      BigInt_spendingPrivate0
    unfolding x recoveredKey0_padded by simp
qed

lemma spendingKeyZ_bytes:
  "spendingKeyZ = [181, 64, 49, 187, 106, 203, 129, 86, 130, 251, 132, 12, 149, 29, 166, 45,
     114, 142, 240, 186, 11, 45, 13, 49, 61, 216, 244, 11, 242, 70, 229, 253]"
  by (simp add: spendingKeyZ_def bytes_eval)

lemma hex_spendingKeyZ: "bytesToHex spendingKeyZ = spendingPrivateKeyZ"
  by (simp add: spendingKeyZ_bytes spendingPrivateKeyZ_def hex_eval)

lemma toPriv_spendingKeyZ:
  "toPriv spendingKeyZ = Inr 0xb54031bb6acb815682fb840c951da62d728ef0ba0b2d0d313dd8f40bf246e5fd"
  unfolding spendingKeyZ_def
  using toPriv_numberToBytesBE [of "0xb54031bb6acb815682fb840c951da62d728ef0ba0b2d0d313dd8f40bf246e5fd"]
  by (simp add: validScalar_def CURVE_ORDER_def)

lemma BigInt_spendingPrivateZ:
  "BigInt spendingPrivateKeyZ = Inr 0xb54031bb6acb815682fb840c951da62d728ef0ba0b2d0d313dd8f40bf246e5fd"
proof -
  have "spendingKeyZ \<noteq> []" by (simp add: spendingKeyZ_bytes)
  moreover have "bytesToNumber spendingKeyZ
      = 0xb54031bb6acb815682fb840c951da62d728ef0ba0b2d0d313dd8f40bf246e5fd"
    using toPriv_spendingKeyZ by (simp add: toPriv_Inr_iff)
  ultimately show ?thesis
    unfolding hex_spendingKeyZ [symmetric] by (simp add: BigInt_bytesToHex)
qed

lemma zeroKey_padded: "''0x'' @ padStart 64 (CHR ''0'') (toString16 0) = zeroKey"
  using hex64_eq_bytesToHex [of 0]
  by (simp add: zeroKey_def bytes_eval hex_eval)

lemma compute_zero:
  "computeStealthPrivateKey logLib (ephemeralPublicKey payment0) spendingPrivateKeyZ
     (viewingPrivateKey keys0) = Inr zeroKey"
proof -
  have "(0xb54031bb6acb815682fb840c951da62d728ef0ba0b2d0d313dd8f40bf246e5fd
          + bytesToNumber (keccak_256 logLib sharedPoint0)) mod CURVE_ORDER = 0"
    unfolding digest0_number by (simp add: CURVE_ORDER_def)
  then show ?thesis
    using compute_value [OF hexToBytes_viewingPrivate0 hexToBytes_ephemeralPublic0 receiver_secret0
        digest0_nonempty BigInt_spendingPrivateZ]
    by (simp only: zeroKey_padded)
qed

text \<open>
  The claim C4 says that the recovered scalar is validated as nonzero and that
  \<open>(spendingPrivate + hash) mod CURVE_ORDER = 0\<close> is rejected. With the spending key
  \<open>CURVE_ORDER - hash\<close> the function returns the zero scalar.
\<close>

theorem zero_key_returned:
  "BigInt spendingPrivateKeyZ = Inr (CURVE_ORDER - bytesToNumber (keccak_256 logLib sharedPoint0))
 \<and> computeStealthPrivateKey logLib (ephemeralPublicKey payment0) spendingPrivateKeyZ
       (viewingPrivateKey keys0)
     = Inr ''0x0000000000000000000000000000000000000000000000000000000000000000''"
  using compute_zero BigInt_spendingPrivateZ unfolding digest0_number
  by (simp add: zeroKey_def CURVE_ORDER_def)

lemma BigInt_recoveredKey0:
  "BigInt recoveredKey0 = Inr 0x6644939b1046e2ea1661bac9159c5f371f3e04610463ad0a1e11606ab3cc62d3"
  using BigInt_hex64 [of "0x6644939b1046e2ea1661bac9159c5f371f3e04610463ad0a1e11606ab3cc62d3"]
  unfolding recoveredKey0_padded by simp

theorem recovered_key_address_witness:
  "curve_laws logLib
 \<and> generateRandomKeys logLib spendingKey0 viewingKey0 = Inr keys0
 \<and> generateStealthAddress logLib (createStealthMetaAddress keys0) (Some ephemeralKey0) [] = Inr payment0
 \<and> hexToBytes (ephemeralPublicKey payment0) = Inr (2 # ephemeralKey0)
 \<and> getSharedSecret logLib viewingKey0 (2 # ephemeralKey0) = Inr sharedPoint0
 \<and> (bytesToNumber spendingKey0 + bytesToNumber (keccak_256 logLib sharedPoint0)) mod CURVE_ORDER
      = 0x6644939b1046e2ea1661bac9159c5f371f3e04610463ad0a1e11606ab3cc62d3
 \<and> computeStealthPrivateKey logLib (ephemeralPublicKey payment0) (spendingPrivateKey keys0)
       (viewingPrivateKey keys0) = Inr recoveredKey0
 \<and> privateKeyToAddress logLib recoveredKey0 = Inr (stealthAddress payment0)"
proof -
  from recovered_key_address [OF curve_laws_logLib generateRandomKeys_keys0 generate_payment0 [of "[]"]]
  obtain eb ss x where
    h: "hexToBytes (ephemeralPublicKey payment0) = Inr eb"
       "getSharedSecret logLib viewingKey0 eb = Inr ss"
       "x = (bytesToNumber spendingKey0 + bytesToNumber (keccak_256 logLib ss)) mod CURVE_ORDER"
       "privateKeyToAddress logLib (''0x'' @ padStart 64 (CHR ''0'') (toString16 x))
          = (if x = 0 then Inl InvalidPrivateKey else Inr (stealthAddress payment0))"
    by blast
  from h(1) have "eb = 2 # ephemeralKey0" by (simp add: hexToBytes_ephemeralPublic0)
  with h(2) have "ss = sharedPoint0" by (simp add: receiver_secret0)
  moreover have sum: "(bytesToNumber spendingKey0 + bytesToNumber (keccak_256 logLib sharedPoint0))
                    mod CURVE_ORDER
                  = 0x6644939b1046e2ea1661bac9159c5f371f3e04610463ad0a1e11606ab3cc62d3"
    unfolding bytesToNumber_spendingKey0 digest0_number by (simp add: CURVE_ORDER_def)
  ultimately have x: "x = 0x6644939b1046e2ea1661bac9159c5f371f3e04610463ad0a1e11606ab3cc62d3"
    using h(3) by (simp only:)
  have "privateKeyToAddress logLib recoveredKey0 = Inr (stealthAddress payment0)"
    using h(4) unfolding x recoveredKey0_padded by simp
  then show ?thesis
    using sum curve_laws_logLib generateRandomKeys_keys0 generate_payment0 [of "[]"]
      hexToBytes_ephemeralPublic0 receiver_secret0 compute_keys0
    by simp
qed

lemma getPublicKey_spendingKeyZ: "getPublicKey logLib spendingKeyZ True = Inr (2 # spendingKeyZ)"
  unfolding getPublicKey_logLib [OF toPriv_spendingKeyZ] by (simp add: CURVE_ORDER_def spendingKeyZ_def)

lemma hex_spendingPublicZ: "bytesToHex (2 # spendingKeyZ) = spendingPublicKey keysZ"
  by (simp add: spendingKeyZ_bytes keysZ_def hex_eval)

lemma keysZ_private:
  "spendingPrivateKey keysZ = spendingPrivateKeyZ" "viewingPrivateKey keysZ = viewingPrivateKey keys0"
  "viewingPublicKey keysZ = viewingPublicKey keys0"
  by (simp_all add: keysZ_def keys0_def spendingPrivateKeyZ_def)

lemma generateRandomKeys_keysZ: "generateRandomKeys logLib spendingKeyZ viewingKey0 = Inr keysZ"
  unfolding generateRandomKeys_def getPublicKey_spendingKeyZ getPublicKey_viewingKey0
  using hex_spendingKeyZ hex_viewingKey0 hex_spendingPublicZ hex_viewingPublic0
  by (simp add: keysZ_private [symmetric])

lemma zeroKey_invalid: "privateKeyToAddress logLib zeroKey = Inl InvalidPrivateKey"
  unfolding zeroKey_padded [symmetric]
  by (subst privateKeyToAddress_hex64)
     (simp_all add: getPublicKey_def Point_fromPrivateKey_def toPriv_zero)

text \<open>
  The claim C2 says that the recovered scalar gives the generated address for every valid
  key pair and ephemeral key. For the wallet whose spending key is \<open>CURVE_ORDER - hash\<close>
  the recovered scalar is zero: it is no private key, deriving its public key throws, and
  there is no address to compare with a generated one.
\<close>

theorem zero_key_has_no_address:
  "generateRandomKeys logLib spendingKeyZ viewingKey0 = Inr keysZ
 \<and> getPublicKey logLib ephemeralKey0 True = Inr (2 # ephemeralKey0)
 \<and> computeStealthPrivateKey logLib (bytesToHex (2 # ephemeralKey0)) (spendingPrivateKey keysZ)
       (viewingPrivateKey keysZ) = Inr zeroKey
 \<and> privateKeyToAddress logLib zeroKey = Inl InvalidPrivateKey"
  using generateRandomKeys_keysZ getPublicKey_ephemeralKey0 compute_zero zeroKey_invalid
  by (simp add: keysZ_private hex_ephemeralPublic0)

lemma digest_laws_maxLib: "digest_laws maxLib"
  by (simp add: digest_laws_def maxLib_def allOnes_def)

lemma digest_maxLib: "keccak_256 maxLib bytes = allOnes"
  by (simp add: maxLib_def)

lemma allOnes_bytes:
  "allOnes = [255, 255, 255, 255, 255, 255, 255, 255, 255, 255, 255, 255, 255, 255, 255, 255,
     255, 255, 255, 255, 255, 255, 255, 255, 255, 255, 255, 255, 255, 255, 255, 255]"
  by (simp add: allOnes_def bytes_eval)

lemma allOnes_number:
  "bytesToNumber allOnes = 0xffffffffffffffffffffffffffffffffffffffffffffffffffffffffffffffff"
  unfolding allOnes_def
  using bytesToNumber_numberToBytesBE
    [of "0xffffffffffffffffffffffffffffffffffffffffffffffffffffffffffffffff" 32]
  by simp

lemma allOnes_invalid: "\<not> validScalar (bytesToNumber (keccak_256 maxLib sharedPoint0))"
  unfolding digest_maxLib allOnes_number by (simp add: validScalar_def CURVE_ORDER_def)

lemma getPublicKey_maxLib: "getPublicKey maxLib p c = getPublicKey logLib p c"
  by (simp add: getPublicKey_def Point_fromPrivateKey_def maxLib_def)

lemma getSharedSecret_maxLib: "getSharedSecret maxLib p q = getSharedSecret logLib p q"
  by (simp add: getSharedSecret_def maxLib_def split: option.splits)

lemma fromHexString_maxLib: "fromHexString maxLib hex = fromHexString logLib hex"
  by (simp add: maxLib_def)

lemma spendingPoint0_some: "fromHexString logLib (slice_from 2 (spendingPublicKey keys0)) \<noteq> None"
  using spendingPoint0 by (auto simp add: Point_fromHex_def split: option.splits)

lemma tag_maxLib:
  "toLowerCase (''0x'' @ slice 2 4 (keccak256 maxLib sharedPoint0)) = toLowerCase ''0xFF''"
proof -
  have "char_of (102::nat) = CHR ''f''" by code_simp
  then show ?thesis
    unfolding keccak256_def digest_maxLib allOnes_bytes
    by (simp add: hex_eval slice_def toLowerCase_def lowerChar_def)
qed

lemma wrappedPoint_bytes:
  "wrappedPoint = [27, 132, 197, 86, 123, 18, 100, 64, 153, 93, 62, 213, 170, 186, 5, 103,
     28, 111, 59, 77, 176, 255, 121, 195, 220, 69, 151, 93, 5, 166, 198, 77]"
  by (simp add: wrappedPoint_def bytes_eval)

lemma hex_wrappedPoint: "bytesToHex wrappedPoint = wrappedKey"
  by (simp add: wrappedPoint_bytes wrappedKey_def hex_eval)

lemma wrappedKey_padded:
  "''0x'' @ padStart 64 (CHR ''0'')
      (toString16 0x1b84c5567b126440995d3ed5aaba05671c6f3b4db0ff79c3dc45975d05a6c64d) = wrappedKey"
  using hex64_eq_bytesToHex [of "0x1b84c5567b126440995d3ed5aaba05671c6f3b4db0ff79c3dc45975d05a6c64d"]
  by (simp add: wrappedPoint_def [symmetric] hex_wrappedPoint)

lemma wrapped_sum:
  "(0x1b84c5567b126440995d3ed5aaba0565d71e1834604819ff9c17f5e9d5dd078f
      + bytesToNumber (keccak_256 maxLib sharedPoint0)) mod CURVE_ORDER
     = 0x1b84c5567b126440995d3ed5aaba05671c6f3b4db0ff79c3dc45975d05a6c64d"
  unfolding digest_maxLib allOnes_number by (simp add: CURVE_ORDER_def)

lemma curve_laws_maxLib: "curve_laws maxLib"
  using curve_laws_logLib by (simp add: curve_laws_def maxLib_def)

lemma generateRandomKeys_maxLib: "generateRandomKeys maxLib s v = generateRandomKeys logLib s v"
  by (simp add: generateRandomKeys_def getPublicKey_maxLib)

text \<open>
  The claim C1 speaks of every valid key pair and every valid ephemeral key. Where the
  hash of the shared secret is no scalar, \<open>generateStealthAddress\<close> throws for a valid key
  pair and a valid ephemeral key: there is no stealth address, ephemeral public key and
  view tag to run the check with.
\<close>

theorem generation_throws:
  "curve_laws maxLib
 \<and> generateRandomKeys maxLib spendingKey0 viewingKey0 = Inr keys0
 \<and> getPublicKey maxLib ephemeralKey0 True = Inr (2 # ephemeralKey0)
 \<and> generateStealthAddress maxLib (createStealthMetaAddress keys0) (Some ephemeralKey0) []
      = Inl InvalidPrivateKey"
proof -
  have v: "hexToBytes (viewingPublicKey
             \<lparr>spendingPublicKey = spendingPublicKey keys0, viewingPublicKey = viewingPublicKey keys0\<rparr>)
             = Inr (2 # viewingKey0)"
    by (simp add: hexToBytes_viewingPublic0)
  have e: "getPublicKey maxLib ephemeralKey0 True = Inr (2 # ephemeralKey0)"
    by (simp add: getPublicKey_maxLib getPublicKey_ephemeralKey0)
  have s: "getSharedSecret maxLib ephemeralKey0 (2 # viewingKey0) = Inr sharedPoint0"
    by (simp add: getSharedSecret_maxLib sender_secret0)
  have "generateStealthAddress maxLib (createStealthMetaAddress keys0) (Some ephemeralKey0) []
          = Inl InvalidPrivateKey"
    unfolding generate_unfold [OF parse_keys0 e v s] tail_invalid [OF allOnes_invalid]
    using spendingPoint0_some by (simp add: fromHexString_maxLib)
  then show ?thesis
    using curve_laws_maxLib e by (simp add: generateRandomKeys_maxLib generateRandomKeys_keys0)
qed

theorem hash_out_of_range_witness:
  "digest_laws maxLib
 \<and> keccak_256 maxLib sharedPoint0 = allOnes
 \<and> CURVE_ORDER \<le> bytesToNumber allOnes
 \<and> getSharedSecret maxLib ephemeralKey0 (2 # viewingKey0) = Inr sharedPoint0
 \<and> getSharedSecret maxLib viewingKey0 (2 # ephemeralKey0) = Inr sharedPoint0
 \<and> generateStealthAddress maxLib (createStealthMetaAddress keys0) (Some ephemeralKey0) []
      = Inl InvalidPrivateKey
 \<and> checkStealthAddress maxLib (ephemeralPublicKey payment0) (spendingPublicKey keys0)
      (viewingPrivateKey keys0) (stealthAddress payment0) ''0xFF'' = Inl InvalidPrivateKey
 \<and> computeStealthPrivateKey maxLib (ephemeralPublicKey payment0) (spendingPrivateKey keys0)
      (viewingPrivateKey keys0) = Inr wrappedKey"
proof -
  have v: "hexToBytes (viewingPublicKey
             \<lparr>spendingPublicKey = spendingPublicKey keys0, viewingPublicKey = viewingPublicKey keys0\<rparr>)
             = Inr (2 # viewingKey0)"
    by (simp add: hexToBytes_viewingPublic0)
  have e: "getPublicKey maxLib ephemeralKey0 True = Inr (2 # ephemeralKey0)"
    by (simp add: getPublicKey_maxLib getPublicKey_ephemeralKey0)
  have s: "getSharedSecret maxLib ephemeralKey0 (2 # viewingKey0) = Inr sharedPoint0"
    by (simp add: getSharedSecret_maxLib sender_secret0)
  have r: "getSharedSecret maxLib viewingKey0 (2 # ephemeralKey0) = Inr sharedPoint0"
    by (simp add: getSharedSecret_maxLib receiver_secret0)
  have t: "take 2 (spendingPrivateKey keys0) = ''0x''" by (simp add: keys0_def)
  have n: "CURVE_ORDER \<le> bytesToNumber allOnes"
    unfolding allOnes_number by (simp add: CURVE_ORDER_def)
  show ?thesis
    using hash_out_of_range [OF digest_laws_maxLib allOnes_invalid parse_keys0 e v s
        hexToBytes_viewingPrivate0 hexToBytes_ephemeralPublic0 r tag_maxLib t BigInt_spendingPrivate0,
        where fresh = "[]" and spendingPublicKey' = "spendingPublicKey keys0"
          and announcedAddress = "stealthAddress payment0"]
      digest_laws_maxLib s r n spendingPoint0_some
    unfolding wrapped_sum wrappedKey_padded
    by (simp add: fromHexString_maxLib digest_maxLib)
qed

section \<open>The scan\<close>

lemma scan_Cons:
  "scanAnnouncements L keys (ann # announcements) ownedAddresses =
     andThen (recognize L keys ann) (\<lambda>isOurs.
       if isOurs then
         andThen (recoverPrivateKey L keys ann) (\<lambda>privateKey'.
           scanAnnouncements L keys announcements
             (ownedAddresses @ [\<lparr>address = AnnouncementData.stealthAddress ann,
                                 privateKey = privateKey', balance = 0, announcement = ann\<rparr>]))
       else scanAnnouncements L keys announcements ownedAddresses)"
  unfolding recognize_def recoverPrivateKey_def by (simp add: Let_def)

lemma recover_defined:
  assumes "digest_laws L" and "BigInt (spendingPrivateKey keys) = Inr s"
      and "recognize L keys ann = Inr b"
  shows "\<exists>k. recoverPrivateKey L keys ann = Inr k"
proof -
  from assms(3) obtain vb eb ss where
    h: "hexToBytes (viewingPrivateKey keys) = Inr vb" "hexToBytes (ephemeralPubKey ann) = Inr eb"
       "getSharedSecret L vb eb = Inr ss"
    unfolding recognize_def checkStealthAddress_def andThen_Inr_iff by blast
  have "BigInt (bytesToHex (keccak_256 L ss)) = Inr (bytesToNumber (keccak_256 L ss))"
    using digest_nonempty [OF assms(1)] by (rule BigInt_bytesToHex)
  then show ?thesis
    unfolding recoverPrivateKey_def compute_unfold [OF h] by (simp add: assms(2))
qed

lemma scan_append:
  assumes "\<forall>ann\<in>set anns. \<exists>b. recognize L keys ann = Inr b"
      and "\<forall>ann\<in>set anns. recognize L keys ann = Inr True \<longrightarrow> (\<exists>k. recoverPrivateKey L keys ann = Inr k)"
  shows "scanAnnouncements L keys anns acc = Inr (acc @ scan_spec L keys anns)"
  using assms
proof (induction anns arbitrary: acc)
  case Nil
  show ?case by (simp add: scan_spec_def)
next
  case (Cons a anns)
  from Cons.prems(1) obtain b where b: "recognize L keys a = Inr b" by auto
  have IH: "\<And>acc. scanAnnouncements L keys anns acc = Inr (acc @ scan_spec L keys anns)"
    using Cons.prems by (intro Cons.IH) simp_all
  show ?case
  proof (cases b)
    case True
    with b Cons.prems(2) obtain k where k: "recoverPrivateKey L keys a = Inr k" by auto
    show ?thesis
      unfolding scan_Cons using b True k by (simp add: IH scan_spec_def)
  next
    case False
    show ?thesis
      unfolding scan_Cons using b False by (simp add: IH scan_spec_def)
  qed
qed

lemma scan_stops_at_error:
  assumes "\<forall>ann\<in>set before. \<exists>b. recognize L keys ann = Inr b"
      and "\<forall>ann\<in>set before. recognize L keys ann = Inr True \<longrightarrow> (\<exists>k. recoverPrivateKey L keys ann = Inr k)"
      and "recognize L keys ann = Inl e"
  shows "scanAnnouncements L keys (before @ ann # after) acc = Inl e"
  using assms(1,2)
proof (induction before arbitrary: acc)
  case Nil
  show ?case unfolding append_Nil scan_Cons by (simp add: assms(3))
next
  case (Cons a before)
  from Cons.prems(1) obtain b where b: "recognize L keys a = Inr b" by auto
  have IH: "\<And>acc. scanAnnouncements L keys (before @ ann # after) acc = Inl e"
    using Cons.prems by (intro Cons.IH) simp_all
  show ?case
  proof (cases b)
    case True
    with b Cons.prems(2) obtain k where k: "recoverPrivateKey L keys a = Inr k" by auto
    show ?thesis
      unfolding append_Cons scan_Cons using b True k by (simp add: IH)
  next
    case False
    show ?thesis
      unfolding append_Cons scan_Cons using b False by (simp add: IH)
  qed
qed

text \<open>
  Claim C8. For a wallet whose spending private key is a hex number, and a finite
  sequence of announcements on none of which \<open>checkStealthAddress\<close> throws, the scan
  returns exactly the announcements that \<open>recognize\<close> accepts, in the order of the
  sequence, each with the announced address and the key that \<open>computeStealthPrivateKey\<close>
  recovers for it (which never throws on a recognized announcement).
\<close>

theorem scan_yields_recognized:
  assumes "digest_laws L"
      and "BigInt (spendingPrivateKey keys) = Inr s"
      and "\<forall>ann\<in>set anns. \<exists>b. recognize L keys ann = Inr b"
  shows "scanAnnouncements L keys anns [] = Inr (scan_spec L keys anns)
       \<and> (\<forall>ann\<in>set anns. recognize L keys ann = Inr True
             \<longrightarrow> (\<exists>k. recoverPrivateKey L keys ann = Inr k))"
proof -
  have r: "\<forall>ann\<in>set anns. recognize L keys ann = Inr True
             \<longrightarrow> (\<exists>k. recoverPrivateKey L keys ann = Inr k)"
    using recover_defined [OF assms(1,2)] by blast
  have "scanAnnouncements L keys anns [] = Inr ([] @ scan_spec L keys anns)"
    using assms(3) r by (rule scan_append)
  with r show ?thesis by simp
qed

section \<open>Scanning with the library of discrete logarithms\<close>

lemma recognize_announcement0: "recognize logLib keys0 announcement0 = Inr True"
proof -
  have e: "hexToBytes (ephemeralPubKey announcement0) = Inr (2 # ephemeralKey0)"
    using hexToBytes_ephemeralPublic0 by (simp add: announcement0_def payment0_def)
  show ?thesis
    unfolding recognize_def check_unfold [OF hexToBytes_viewingPrivate0 e receiver_secret0]
    by (simp add: viewTag0 spendingPoint0 hashedSecretPoint0 stealthPublicKey0 stealthAddress0
        announcement0_def extractViewTag_def slice_def)
qed

lemma recover_announcement0: "recoverPrivateKey logLib keys0 announcement0 = Inr recoveredKey0"
  using compute_keys0 by (simp add: recoverPrivateKey_def announcement0_def payment0_def)

lemma recognize_announcement1: "recognize logLib keys0 announcement1 = Inr True"
  using recognize_announcement0 by (simp add: recognize_def announcement1_def)

lemma recover_announcement1: "recoverPrivateKey logLib keys0 announcement1 = Inr recoveredKey0"
  using recover_announcement0 by (simp add: recoverPrivateKey_def announcement1_def)

lemma recognize_stranger0: "recognize logLib keys0 stranger0 = Inr False"
proof -
  have e: "hexToBytes (ephemeralPubKey stranger0) = Inr (2 # ephemeralKey0)"
    using hexToBytes_ephemeralPublic0 by (simp add: stranger0_def announcement0_def payment0_def)
  show ?thesis
    unfolding recognize_def check_unfold [OF hexToBytes_viewingPrivate0 e receiver_secret0]
    by (simp add: viewTag0 stranger0_def extractViewTag_def slice_def toLowerCase_def lowerChar_def)
qed

lemma recognize_malformed0: "recognize logLib keys0 malformed0 = Inl PointInvalid"
proof -
  have "hexToBytes ''0x'' = Inr []" by (simp add: hexToBytes_def slice_from_def)
  moreover have "getSharedSecret logLib viewingKey0 [] = Inl PointInvalid"
    by (simp add: getSharedSecret_def logLib_def logFromBytes_def)
  ultimately show ?thesis
    by (simp add: recognize_def checkStealthAddress_def hexToBytes_viewingPrivate0 malformed0_def)
qed

theorem scan_yields_recognized_witness:
  "digest_laws logLib
 \<and> BigInt (spendingPrivateKey keys0)
       = Inr 0x1b84c5567b126440995d3ed5aaba0565d71e1834604819ff9c17f5e9d5dd078f
 \<and> recognize logLib keys0 announcement0 = Inr True
 \<and> recognize logLib keys0 stranger0 = Inr False
 \<and> recognize logLib keys0 announcement1 = Inr True
 \<and> scanAnnouncements logLib keys0 [announcement0, stranger0, announcement1] []
      = Inr [\<lparr>address = ''0x159c5f371f3e04610463ad0a1e11606ab3cc62d3'',
              privateKey = recoveredKey0, balance = 0, announcement = announcement0\<rparr>,
             \<lparr>address = ''0x159c5f371f3e04610463ad0a1e11606ab3cc62d3'',
              privateKey = recoveredKey0, balance = 0, announcement = announcement1\<rparr>]"
proof -
  have all: "\<forall>ann\<in>set [announcement0, stranger0, announcement1].
               \<exists>b. recognize logLib keys0 ann = Inr b"
    by (auto simp add: recognize_announcement0 recognize_stranger0 recognize_announcement1)
  have a0: "AnnouncementData.stealthAddress announcement0 = ''0x159c5f371f3e04610463ad0a1e11606ab3cc62d3''"
    by (simp add: announcement0_def)
  have a1: "AnnouncementData.stealthAddress announcement1 = ''0x159c5f371f3e04610463ad0a1e11606ab3cc62d3''"
    by (simp add: announcement1_def announcement0_def)
  show ?thesis
    using scan_yields_recognized [OF digest_laws_logLib BigInt_spendingPrivate0 all]
      digest_laws_logLib BigInt_spendingPrivate0
    by (simp add: scan_spec_def recognize_announcement0 recognize_stranger0 recognize_announcement1
        recover_announcement0 recover_announcement1 a0 a1)
qed

text \<open>
  The claim C8 speaks of every finite sequence of announcements. The announcements are
  the logs of the chain as they are; one whose ephemeral public key is no point makes
  \<open>checkStealthAddress\<close> throw, and the loop has no handler: the scan ends with the
  error and yields nothing, although the announcement before it is recognized.
\<close>

theorem scan_aborts_on_malformed:
  "recognize logLib keys0 announcement0 = Inr True
 \<and> recoverPrivateKey logLib keys0 announcement0 = Inr recoveredKey0
 \<and> recognize logLib keys0 malformed0 = Inl PointInvalid
 \<and> scanAnnouncements logLib keys0 [announcement0, malformed0] [] = Inl PointInvalid"
  unfolding scan_Cons
  by (simp add: recognize_announcement0 recover_announcement0 recognize_malformed0)

section \<open>The wallet cipher\<close>





section \<open>Running the cipher\<close>



























end
